theory Spec2Isabelle
  imports Main
begin

section \<open>JavaScript values as the chat client sees them\<close>

text \<open>
  The client (\<^verbatim>\<open>my-app/src/hooks/useChat.js\<close>, \<^verbatim>\<open>my-app/src/utils/index.js\<close>) reads
  the wire with \<^verbatim>\<open>JSON.parse\<close> and then tests fields of the parsed value with the usual
  JavaScript operators. Strings are byte strings (the UTF-8 text of the wire); a parsed
  value is a \<open>json\<close>; a value that may be \<^verbatim>\<open>undefined\<close> is a \<open>json option\<close> with
  \<open>None\<close> for \<^verbatim>\<open>undefined\<close>. Numbers are the integers; fractional numerals are
  outside the model.
\<close>

datatype json =
    JNull
  | JBool bool
  | JNum int
  | JStr string
  | JArr "json list"
  | JObj "(string \<times> json) list"

datatype js_error = JsError (err_name: string) (err_message: string)

abbreviation nl :: char where
  "nl \<equiv> CHR 0x0A"

text \<open>Truthiness: what \<^verbatim>\<open>if (v)\<close>, \<^verbatim>\<open>!v\<close>, \<^verbatim>\<open>a || b\<close> and \<^verbatim>\<open>a && b\<close> test.\<close>

fun truthy :: "json option \<Rightarrow> bool" where
  "truthy None = False"
| "truthy (Some JNull) = False"
| "truthy (Some (JBool b)) = b"
| "truthy (Some (JNum n)) = (n \<noteq> 0)"
| "truthy (Some (JStr s)) = (s \<noteq> [])"
| "truthy (Some (JArr xs)) = True"
| "truthy (Some (JObj kvs)) = True"

text \<open>The chain \<^verbatim>\<open>a || b || ... || d\<close> whose last operand \<open>d\<close> is always defined.\<close>

fun first_truthy :: "json option list \<Rightarrow> json \<Rightarrow> json" where
  "first_truthy [] d = d"
| "first_truthy (None # vs) d = first_truthy vs d"
| "first_truthy (Some v # vs) d = (if truthy (Some v) then v else first_truthy vs d)"

text \<open>
  \<^verbatim>\<open>v.key\<close> on a value that is neither \<^verbatim>\<open>null\<close> nor \<^verbatim>\<open>undefined\<close>. Only objects
  carry the keys the client reads (\<^verbatim>\<open>type\<close>, \<^verbatim>\<open>id\<close>, \<^verbatim>\<open>delta\<close>, \<^verbatim>\<open>message\<close>,
  \<^verbatim>\<open>error\<close>, \<^verbatim>\<open>parts\<close>, \<^verbatim>\<open>text\<close>, \<^verbatim>\<open>content\<close>); on a string, number, boolean or
  array they are \<^verbatim>\<open>undefined\<close>.
\<close>

fun get_prop :: "json \<Rightarrow> string \<Rightarrow> json option" where
  "get_prop (JObj kvs) k = map_of kvs k"
| "get_prop _ k = None"

text \<open>
  \<^verbatim>\<open>a === b\<close>. Two arrays or two objects are equal only when they are the same
  reference; the values compared here always come from two different calls of
  \<^verbatim>\<open>JSON.parse\<close>, so they never are.
\<close>

definition strict_eq :: "json option \<Rightarrow> json option \<Rightarrow> bool" where
  "strict_eq a b =
     (case (a, b) of
        (None, None) \<Rightarrow> True
      | (Some JNull, Some JNull) \<Rightarrow> True
      | (Some (JBool x), Some (JBool y)) \<Rightarrow> x = y
      | (Some (JNum x), Some (JNum y)) \<Rightarrow> x = y
      | (Some (JStr x), Some (JStr y)) \<Rightarrow> x = y
      | _ \<Rightarrow> False)"

definition digit :: "nat \<Rightarrow> char" where
  "digit d = ''0123456789'' ! d"

fun dec_nat :: "nat \<Rightarrow> string" where
  "dec_nat n = (if n < 10 then [digit n] else dec_nat (n div 10) @ [digit (n mod 10)])"

declare dec_nat.simps [simp del]

definition dec_int :: "int \<Rightarrow> string" where
  "dec_int i = (if i < 0 then CHR ''-'' # dec_nat (nat (- i)) else dec_nat (nat i))"

fun join_with :: "string \<Rightarrow> string list \<Rightarrow> string" where
  "join_with sep [] = []"
| "join_with sep [x] = x"
| "join_with sep (x # y # ys) = x @ sep @ join_with sep (y # ys)"

text \<open>
  String conversion, as \<^verbatim>\<open>s += v\<close> and \<^verbatim>\<open>Array.prototype.join\<close> apply it. Inside an
  array, \<^verbatim>\<open>null\<close> prints as the empty string.
\<close>

fun js_to_string :: "json \<Rightarrow> string" where
  "js_to_string JNull = ''null''"
| "js_to_string (JBool b) = (if b then ''true'' else ''false'')"
| "js_to_string (JNum n) = dec_int n"
| "js_to_string (JStr s) = s"
| "js_to_string (JArr xs) =
     join_with '','' (map (\<lambda>x. if x = JNull then [] else js_to_string x) xs)"
| "js_to_string (JObj kvs) = ''[object Object]''"

text \<open>\<^verbatim>\<open>String.prototype.trim\<close>, on the ASCII white space.\<close>

definition js_space :: "char \<Rightarrow> bool" where
  "js_space c = (c \<in> set [CHR 0x09, CHR 0x0A, CHR 0x0B, CHR 0x0C, CHR 0x0D, CHR 0x20])"

definition trim :: "string \<Rightarrow> string" where
  "trim s = rev (dropWhile js_space (rev (dropWhile js_space s)))"

definition startsWith :: "string \<Rightarrow> string \<Rightarrow> bool" where
  "startsWith s p = (take (length p) s = p)"

text \<open>
  \<^verbatim>\<open>s.split('\n')\<close>: the segments between the newlines, always at least one (the empty
  string splits into one empty segment). \<open>split_from seg s\<close> scans \<open>s\<close> with \<open>seg\<close> the
  segment read so far.
\<close>

fun split_from :: "string \<Rightarrow> string \<Rightarrow> string list" where
  "split_from seg [] = [seg]"
| "split_from seg (c # cs) =
     (if c = nl then seg # split_from [] cs else split_from (seg @ [c]) cs)"

definition split_nl :: "string \<Rightarrow> string list" where
  "split_nl s = split_from [] s"

section \<open>The stream decoder\<close>

text \<open>
  \<^verbatim>\<open>parseStreamData\<close> of \<^verbatim>\<open>utils/index.js\<close>. \<^verbatim>\<open>JSON.parse\<close> belongs to the platform:
  it is the parameter \<open>parse\<close>, which returns \<open>None\<close> where \<^verbatim>\<open>JSON.parse\<close> throws.
  The result \<open>None\<close> is the \<^verbatim>\<open>null\<close> that the function returns for a blank line, an
  unknown tag and a parse failure.
\<close>

definition parseStreamData :: "(string \<Rightarrow> json option) \<Rightarrow> string \<Rightarrow> json option" where
  "parseStreamData parse line =
     (if trim line = [] then None
      else if startsWith line ''0:'' then parse (drop 2 line)
      else if startsWith line ''d:'' then parse (drop 2 line)
      else if startsWith line ''e:'' then parse (drop 2 line)
      else None)"

text \<open>
  The \<^verbatim>\<open>for (const line of lines)\<close> loop of \<^verbatim>\<open>processStreamResponse\<close>, with the body
  of its \<^verbatim>\<open>try\<close> block as the parameter \<open>f\<close>: a line whose parse is \<^verbatim>\<open>null\<close> or
  any other falsy value is skipped by \<^verbatim>\<open>if (!data) continue\<close>.
\<close>

definition on_line :: "(string \<Rightarrow> json option) \<Rightarrow> (json \<Rightarrow> 'a \<Rightarrow> 'a) \<Rightarrow> string \<Rightarrow> 'a \<Rightarrow> 'a" where
  "on_line parse f line acc =
     (case parseStreamData parse line of
        None \<Rightarrow> acc
      | Some d \<Rightarrow> if truthy (Some d) then f d acc else acc)"

fun for_lines :: "(string \<Rightarrow> json option) \<Rightarrow> (json \<Rightarrow> 'a \<Rightarrow> 'a) \<Rightarrow> string list \<Rightarrow> 'a \<Rightarrow> 'a" where
  "for_lines parse f [] acc = acc"
| "for_lines parse f (line # rest) acc = for_lines parse f rest (on_line parse f line acc)"

text \<open>
  The \<^verbatim>\<open>while (true)\<close> loop over the chunks the reader delivers: append the chunk to
  the buffer, split on the newline, keep the last segment as the new buffer
  (\<^verbatim>\<open>lines.pop() || ''\<close>) and run the line loop on the others. The state is the pending
  buffer and whatever the line loop threads through (\<open>acc\<close>). A chunk is the bytes the
  reader delivers: the \<^verbatim>\<open>TextDecoder\<close>, called with \<^verbatim>\<open>stream: true\<close>, keeps an
  incomplete multi-byte character for the next call, so the text appended over a run
  is the text of the bytes, wherever the chunks are cut; the newline is a single byte
  that occurs inside no other character.
\<close>

fun read_loop :: "(string \<Rightarrow> json option) \<Rightarrow> (json \<Rightarrow> 'a \<Rightarrow> 'a) \<Rightarrow> string list \<Rightarrow> string \<times> 'a \<Rightarrow> string \<times> 'a" where
  "read_loop parse f [] (buffer, acc) = (buffer, acc)"
| "read_loop parse f (chunk # chunks) (buffer, acc) =
     (let lines = split_nl (buffer @ chunk)
      in read_loop parse f chunks (last lines, for_lines parse f (butlast lines) acc))"

text \<open>
  The events in the order the loop hands them to its body: the loop run with a body
  that only records its argument.
\<close>

definition loop_events :: "(string \<Rightarrow> json option) \<Rightarrow> string list \<Rightarrow> json list" where
  "loop_events parse chunks = snd (read_loop parse (\<lambda>d evs. evs @ [d]) chunks ([], []))"

section \<open>Messages and the session\<close>

text \<open>
  A message as \<^verbatim>\<open>createMessage\<close> builds it and the hook updates it: \<^verbatim>\<open>text\<close> is
  absent on a message created with empty content, \<^verbatim>\<open>error\<close> is absent until the
  failure path writes it. The text of a part is whatever value the stream supplied.
\<close>

record part =
  part_type :: string
  part_text :: json

record message =
  msg_id :: string
  msg_role :: string
  msg_timestamp :: nat
  msg_parts :: "part list"
  msg_text :: "json option"
  msg_error :: "string option"

record request =
  req_id :: string
  req_messages :: "message list"
  req_model :: string
  req_trigger :: string

text \<open>
  What the hook does to the world outside its own state, in the order it does it:
  each \<^verbatim>\<open>setStatus\<close>, each \<^verbatim>\<open>fetch\<close>, the two callbacks and the \<^verbatim>\<open>setTimeout\<close> of
  the retry (with its delay in milliseconds). Console output is not recorded.
\<close>

datatype effect =
    SetStatus string
  | Fetch request
  | OnError string
  | OnSuccess
  | SetTimeout nat

text \<open>
  The state of one \<^verbatim>\<open>useChat\<close> instance: its five \<^verbatim>\<open>useState\<close> cells, its two refs
  (\<open>abortControllerRef\<close> is \<open>True\<close> while the ref holds a controller), the number of
  identifiers drawn so far and the trace of effects.
\<close>

record session =
  messages :: "message list"
  status :: string
  error :: "string option"
  input :: string
  selectedModel :: string
  abortControllerRef :: bool
  retryCountRef :: nat
  ticks :: nat
  trace :: "effect list"

definition setStatus :: "string \<Rightarrow> session \<Rightarrow> session" where
  "setStatus v s = s\<lparr>status := v, trace := trace s @ [SetStatus v]\<rparr>"

text \<open>
  \<^verbatim>\<open>extractTextFromParts\<close>: the filter callback reads \<^verbatim>\<open>part.type\<close>, which throws a
  \<^verbatim>\<open>TypeError\<close> on a \<^verbatim>\<open>null\<close> element.
\<close>

definition extractTextFromParts :: "json option \<Rightarrow> js_error + string" where
  "extractTextFromParts parts =
     (case parts of
        Some (JArr xs) \<Rightarrow>
          if xs = [] then Inr []
          else if JNull \<in> set xs
            then Inl (JsError ''TypeError'' ''Cannot read properties of null'')
          else Inr (concat (map js_to_string
                 (filter (\<lambda>t. truthy (Some t))
                   (map (\<lambda>p. first_truthy
                            [get_prop p ''text'', get_prop p ''content'', get_prop p ''delta'']
                            (JStr []))
                     (filter (\<lambda>p. strict_eq (get_prop p ''type'') (Some (JStr ''text''))) xs)))))
      | _ \<Rightarrow> Inr [])"

text \<open>
  \<^verbatim>\<open>updateAssistantMessage\<close>: the last message, when it is an assistant message, gets
  one text part and the \<^verbatim>\<open>text\<close> field; the \<^verbatim>\<open>messageId\<close> argument is not read.
\<close>

definition updateAssistantMessage :: "string \<Rightarrow> json \<Rightarrow> session \<Rightarrow> session" where
  "updateAssistantMessage messageId txt s =
     (let ms = messages s
      in if ms \<noteq> [] \<and> msg_role (last ms) = ''assistant''
         then s\<lparr>messages := butlast ms @
                  [(last ms)\<lparr>msg_parts := [\<lparr>part_type = ''text'', part_text = txt\<rparr>],
                             msg_text := Some txt\<rparr>]\<rparr>
         else s)"

section \<open>processStreamResponse\<close>

record locals =
  currentText :: string
  textPartId :: "json option"

text \<open>
  \<^verbatim>\<open>extractTextFromParts(m.parts || []) || m.text || m.content || currentText\<close> for a
  truthy \<^verbatim>\<open>data.message\<close>.
\<close>

definition finalText :: "json \<Rightarrow> string \<Rightarrow> js_error + json" where
  "finalText m cur =
     (case extractTextFromParts (Some (first_truthy [get_prop m ''parts''] (JArr []))) of
        Inl e \<Rightarrow> Inl e
      | Inr t \<Rightarrow> Inr (first_truthy [Some (JStr t), get_prop m ''text'', get_prop m ''content'']
                        (JStr cur)))"

definition has_type :: "json \<Rightarrow> string \<Rightarrow> bool" where
  "has_type d t = strict_eq (get_prop d ''type'') (Some (JStr t))"

text \<open>
  The body of the \<^verbatim>\<open>try\<close> block inside the line loop: \<open>Inl\<close> is an exception thrown
  inside it, either the \<^verbatim>\<open>TypeError\<close> of \<^verbatim>\<open>extractTextFromParts\<close> or the
  \<^verbatim>\<open>Error\<close> that the \<^verbatim>\<open>error\<close> branch throws.
\<close>

definition event_try :: "string \<Rightarrow> json \<Rightarrow> locals \<times> session \<Rightarrow> js_error + locals \<times> session" where
  "event_try messageId d ls =
     (let l = fst ls; s = snd ls
      in if has_type d ''start'' then Inr (l, setStatus ''streaming'' s)
         else if has_type d ''text-start''
           then Inr (l\<lparr>textPartId := get_prop d ''id'', currentText := []\<rparr>, s)
         else if has_type d ''text-delta''
           then (case get_prop d ''delta'' of
                   None \<Rightarrow> Inr (l, s)
                 | Some dl \<Rightarrow>
                     if strict_eq (get_prop d ''id'') (textPartId l) \<and> truthy (Some dl)
                     then (let cur = currentText l @ js_to_string dl
                           in Inr (l\<lparr>currentText := cur\<rparr>,
                                   updateAssistantMessage messageId (JStr cur) s))
                     else Inr (l, s))
         else if has_type d ''message'' \<and> truthy (get_prop d ''message'')
           then (case get_prop d ''message'' of
                   None \<Rightarrow> Inr (l, s)
                 | Some m \<Rightarrow>
                     (case finalText m (currentText l) of
                        Inl e \<Rightarrow> Inl e
                      | Inr t \<Rightarrow> Inr (l, updateAssistantMessage messageId t s)))
         else if has_type d ''finish'' then Inr (l, setStatus ''ready'' s)
         else if has_type d ''error''
           then Inl (JsError ''Error''
                  (js_to_string (first_truthy [get_prop d ''error''] (JStr ''Unknown error''))))
         else Inr (l, s))"

text \<open>
  The \<^verbatim>\<open>try\<close> block with its \<^verbatim>\<open>catch (parseError)\<close>, which logs a warning and goes
  on with the next line: whatever was thrown inside is dropped there.
\<close>

definition on_event :: "string \<Rightarrow> json \<Rightarrow> locals \<times> session \<Rightarrow> locals \<times> session" where
  "on_event messageId d ls =
     (case event_try messageId d ls of Inl e \<Rightarrow> ls | Inr ls' \<Rightarrow> ls')"

text \<open>
  The code after the loop, for what is left in the buffer: only the \<^verbatim>\<open>message\<close> and
  \<^verbatim>\<open>finish\<close> branches exist there, again inside a \<^verbatim>\<open>try\<close> with a logging
  \<^verbatim>\<open>catch\<close>.
\<close>

definition last_buffer_try :: "string \<Rightarrow> json \<Rightarrow> locals \<times> session \<Rightarrow> js_error + locals \<times> session" where
  "last_buffer_try messageId d ls =
     (let l = fst ls; s = snd ls
      in if has_type d ''message'' \<and> truthy (get_prop d ''message'')
           then (case get_prop d ''message'' of
                   None \<Rightarrow> Inr (l, s)
                 | Some m \<Rightarrow>
                     (case finalText m (currentText l) of
                        Inl e \<Rightarrow> Inl e
                      | Inr t \<Rightarrow> Inr (l, updateAssistantMessage messageId t s)))
         else if has_type d ''finish'' then Inr (l, setStatus ''ready'' s)
         else Inr (l, s))"

definition on_last_buffer :: "(string \<Rightarrow> json option) \<Rightarrow> string \<Rightarrow> string \<Rightarrow> locals \<times> session \<Rightarrow> locals \<times> session" where
  "on_last_buffer parse messageId buffer ls =
     (if trim buffer \<noteq> [] then
        (case parseStreamData parse buffer of
           None \<Rightarrow> ls
         | Some d \<Rightarrow>
             if truthy (Some d)
             then (case last_buffer_try messageId d ls of Inl e \<Rightarrow> ls | Inr ls' \<Rightarrow> ls')
             else ls)
      else ls)"

text \<open>
  How the body of the response ends: the reader reports \<^verbatim>\<open>done\<close>, or
  \<^verbatim>\<open>reader.read()\<close> rejects (the connection broke, or the request was aborted and the
  rejection is an \<^verbatim>\<open>AbortError\<close>).
\<close>

datatype read_end = Done | Rejects js_error

definition init_locals :: locals where
  "init_locals = \<lparr>currentText = [], textPartId = Some JNull\<rparr>"

text \<open>
  \<^verbatim>\<open>processStreamResponse\<close>: the session it leaves behind, and the exception it
  throws, if any. The only exception that leaves the function is a rejected read.
\<close>

definition processStreamResponse :: "(string \<Rightarrow> json option) \<Rightarrow> string list \<Rightarrow> read_end \<Rightarrow> string \<Rightarrow> session \<Rightarrow> session \<times> js_error option" where
  "processStreamResponse parse chunks fin messageId s =
     (let r = read_loop parse (on_event messageId) chunks ([], (init_locals, s))
      in case fin of
           Rejects e \<Rightarrow> (snd (snd r), Some e)
         | Done \<Rightarrow>
             (setStatus ''ready'' (snd (on_last_buffer parse messageId (fst r) (snd r))), None))"

section \<open>Creating messages\<close>

text \<open>
  \<^verbatim>\<open>Date.now()\<close> and \<^verbatim>\<open>Math.random().toString(36).substr(2, 9)\<close> are the world's:
  \<open>now w t\<close> and \<open>rand w t\<close> are what they return at the \<open>t\<close>-th draw.
\<close>

record world =
  now :: "nat \<Rightarrow> nat"
  rand :: "nat \<Rightarrow> string"

definition generateMessageId :: "world \<Rightarrow> nat \<Rightarrow> string" where
  "generateMessageId w t = ''msg-'' @ dec_nat (now w t) @ ''-'' @ rand w t"

definition generateUserMessageId :: "world \<Rightarrow> nat \<Rightarrow> string" where
  "generateUserMessageId w t = ''user-'' @ dec_nat (now w t) @ ''-'' @ rand w t"

text \<open>
  The options object of \<^verbatim>\<open>createMessage\<close>, with the fields its callers pass. The
  function destructures \<^verbatim>\<open>role\<close>, \<^verbatim>\<open>content\<close>, \<^verbatim>\<open>parts\<close> and \<^verbatim>\<open>timestamp\<close> only:
  an \<^verbatim>\<open>id\<close> among the options is not read, and the message always gets a newly
  generated identifier.
\<close>

record options =
  opt_id :: "string option"
  opt_role :: string
  opt_content :: string
  opt_parts :: "part list"

definition createMessage :: "world \<Rightarrow> nat \<Rightarrow> options \<Rightarrow> message" where
  "createMessage w t opts =
     \<lparr>msg_id = (if opt_role opts = ''user'' then generateUserMessageId w t
                else generateMessageId w t),
      msg_role = opt_role opts,
      msg_timestamp = now w t,
      msg_parts = (if length (opt_parts opts) > 0 then opt_parts opts
                   else [\<lparr>part_type = ''text'', part_text = JStr (opt_content opts)\<rparr>]),
      msg_text = (if opt_content opts \<noteq> [] then Some (JStr (opt_content opts)) else None),
      msg_error = None\<rparr>"

text \<open>\<^verbatim>\<open>validateInput\<close>: \<open>None\<close> for a valid input, the error text otherwise.\<close>

definition validateInput :: "string \<Rightarrow> string option" where
  "validateInput inp =
     (let trimmed = trim inp
      in if trimmed = [] then Some ''Input cannot be empty''
         else if length trimmed > 4000 then Some ''Input too long (max 4000 characters)''
         else None)"

text \<open>\<^verbatim>\<open>formatError\<close> on an \<^verbatim>\<open>Error\<close> object, the only kind the hook passes.\<close>

definition formatError :: "js_error \<Rightarrow> string" where
  "formatError e = err_message e"

section \<open>sendMessage\<close>

text \<open>
  What the \<^verbatim>\<open>useCallback\<close> closure of \<^verbatim>\<open>sendMessage\<close> captured at the render that
  created it: the message list of that render, the selected model and
  \<^verbatim>\<open>maxRetries\<close>. The retry timer calls the same closure again.
\<close>

record closure =
  cl_messages :: "message list"
  cl_selectedModel :: string
  cl_maxRetries :: nat

text \<open>
  What \<^verbatim>\<open>await fetch(...)\<close> gives: a rejection, or a response with its status code and
  body (the chunks the reader delivers and how the body ends).
\<close>

datatype fetch_result =
    FetchRejects js_error
  | Response nat "string list" read_end

definition response_ok :: "nat \<Rightarrow> bool" where
  "response_ok code = (200 \<le> code \<and> code \<le> 299)"

text \<open>
  The synchronous part of \<^verbatim>\<open>sendMessage\<close> after a successful validation, up to and
  including the call of \<^verbatim>\<open>fetch\<close>: the new session and \<^verbatim>\<open>assistantMessageId\<close>.
\<close>

definition sendMessage_open :: "world \<Rightarrow> closure \<Rightarrow> string \<Rightarrow> session \<Rightarrow> session \<times> string" where
  "sendMessage_open w clo messageContent s =
     (let t = ticks s;
          userMessage = createMessage w t
            \<lparr>opt_id = None, opt_role = ''user'', opt_content = messageContent, opt_parts = []\<rparr>;
          s1 = s\<lparr>messages := messages s @ [userMessage]\<rparr>;
          s2 = setStatus ''streaming'' s1;
          s3 = s2\<lparr>error := None, input := []\<rparr>;
          assistantMessageId = generateMessageId w (t + 1);
          assistantMessage = createMessage w (t + 2)
            \<lparr>opt_id = Some assistantMessageId, opt_role = ''assistant'', opt_content = [],
             opt_parts = []\<rparr>;
          s4 = s3\<lparr>messages := messages s3 @ [assistantMessage], ticks := t + 3\<rparr>;
          s5 = s4\<lparr>abortControllerRef := True\<rparr>;
          rq = \<lparr>req_id = assistantMessageId,
                req_messages = cl_messages clo @ [userMessage],
                req_model = cl_selectedModel clo,
                req_trigger = ''submit-message''\<rparr>
      in (s5\<lparr>trace := trace s5 @ [Fetch rq]\<rparr>, assistantMessageId))"

definition apology :: string where
  "apology = [CHR 0xE6, CHR 0x8A, CHR 0xB1, CHR 0xE6, CHR 0xAD, CHR 0x89, CHR 0xEF, CHR 0xBC,
              CHR 0x8C, CHR 0xE5, CHR 0x87, CHR 0xBA, CHR 0xE7, CHR 0x8E, CHR 0xB0, CHR 0xE4,
              CHR 0xBA, CHR 0x86, CHR 0xE9, CHR 0x94, CHR 0x99, CHR 0xE8, CHR 0xAF, CHR 0xAF,
              CHR 0x3A, CHR 0x20]"

text \<open>
  The \<^verbatim>\<open>catch (err)\<close> block of \<^verbatim>\<open>sendMessage\<close>: the new session and the delay of the
  retry timer when one is set. \<open>apology\<close> is the UTF-8 text that precedes the error in
  the message shown to the user.
\<close>

definition sendMessage_catch :: "closure \<Rightarrow> string \<Rightarrow> js_error \<Rightarrow> session \<Rightarrow> session \<times> nat option" where
  "sendMessage_catch clo assistantMessageId err s =
     (if err_name err = ''AbortError'' then (setStatus ''ready'' s, None)
      else if retryCountRef s < cl_maxRetries clo then
        (let s1 = s\<lparr>retryCountRef := retryCountRef s + 1\<rparr>;
             s2 = s1\<lparr>messages := filter (\<lambda>m. msg_id m \<noteq> assistantMessageId) (messages s1)\<rparr>;
             delay = 1000 * retryCountRef s2
         in (s2\<lparr>trace := trace s2 @ [SetTimeout delay]\<rparr>, Some delay))
      else
        (let formattedError = formatError err;
             s1 = s\<lparr>error := Some formattedError\<rparr>;
             s2 = setStatus ''ready'' s1;
             s3 = s2\<lparr>trace := trace s2 @ [OnError formattedError]\<rparr>;
             ms = messages s3
         in (if ms \<noteq> [] \<and> msg_id (last ms) = assistantMessageId
             then s3\<lparr>messages := butlast ms @
                    [(last ms)\<lparr>msg_error := Some formattedError,
                               msg_parts := [\<lparr>part_type = ''text'',
                                             part_text = JStr (apology @ formattedError)\<rparr>]\<rparr>]\<rparr>
             else s3,
             None)))"

text \<open>The \<^verbatim>\<open>finally\<close> block of \<^verbatim>\<open>sendMessage\<close>: the controller is cleared.\<close>

definition finally_clear :: "session \<times> nat option \<Rightarrow> session \<times> nat option" where
  "finally_clear r = ((fst r)\<lparr>abortControllerRef := False\<rparr>, snd r)"

text \<open>
  The rest of \<^verbatim>\<open>sendMessage\<close> once \<^verbatim>\<open>fetch\<close> has settled: the \<^verbatim>\<open>try\<close> body from the
  \<^verbatim>\<open>response.ok\<close> test on, the \<^verbatim>\<open>catch\<close> block and the \<^verbatim>\<open>finally\<close> block.
\<close>

definition sendMessage_settle :: "(string \<Rightarrow> json option) \<Rightarrow> closure \<Rightarrow> string \<Rightarrow> fetch_result \<Rightarrow> session \<Rightarrow> session \<times> nat option" where
  "sendMessage_settle parse clo assistantMessageId res s =
     finally_clear
       (case res of
          FetchRejects e \<Rightarrow> sendMessage_catch clo assistantMessageId e s
        | Response code chunks fin \<Rightarrow>
            if \<not> response_ok code
            then sendMessage_catch clo assistantMessageId
                   (JsError ''Error'' (''HTTP error! status: '' @ dec_nat code)) s
            else (case processStreamResponse parse chunks fin assistantMessageId s of
                    (s', Some e) \<Rightarrow> sendMessage_catch clo assistantMessageId e s'
                  | (s', None) \<Rightarrow>
                      (s'\<lparr>retryCountRef := 0, trace := trace s' @ [OnSuccess]\<rparr>, None)))"

text \<open>
  \<^verbatim>\<open>sendMessage\<close> for a string argument (the form of every call in the repository),
  with the result of its \<^verbatim>\<open>fetch\<close>.
\<close>

definition sendMessage :: "(string \<Rightarrow> json option) \<Rightarrow> world \<Rightarrow> closure \<Rightarrow> string \<Rightarrow> fetch_result \<Rightarrow> session \<Rightarrow> session \<times> nat option" where
  "sendMessage parse w clo messageContent res s =
     (case validateInput messageContent of
        Some verr \<Rightarrow> (s\<lparr>error := Some verr, trace := trace s @ [OnError verr]\<rparr>, None)
      | None \<Rightarrow>
          (let (s1, assistantMessageId) = sendMessage_open w clo messageContent s
           in sendMessage_settle parse clo assistantMessageId res s1))"

text \<open>
  One submit with its retries: when an attempt sets the retry timer, the timer calls
  \<^verbatim>\<open>sendMessage(messageContent)\<close> of the same closure again, and that call meets the next
  fetch result of the list.
\<close>

fun submit_run :: "(string \<Rightarrow> json option) \<Rightarrow> world \<Rightarrow> closure \<Rightarrow> string \<Rightarrow> fetch_result list \<Rightarrow> session \<Rightarrow> session" where
  "submit_run parse w clo messageContent [] s = s"
| "submit_run parse w clo messageContent (res # rest) s =
     (case sendMessage parse w clo messageContent res s of
        (s', Some delay) \<Rightarrow> submit_run parse w clo messageContent rest s'
      | (s', None) \<Rightarrow> s')"

text \<open>\<^verbatim>\<open>abortRequest\<close>: with a controller in the ref, abort and set the status.\<close>

definition abortRequest :: "session \<Rightarrow> session" where
  "abortRequest s = (if abortControllerRef s then setStatus ''ready'' s else s)"

text \<open>
  \<^verbatim>\<open>handleSubmit\<close> of \<^verbatim>\<open>InputArea\<close>: the argument it passes to \<^verbatim>\<open>onSubmit\<close>, or
  \<open>None\<close> when it does not call it. \<^verbatim>\<open>ChatContainer\<close> passes
  \<^verbatim>\<open>isLoading = (status === 'streaming')\<close>,
  \<^verbatim>\<open>disabled = isLoading || connectionStatus === 'error'\<close> and an \<^verbatim>\<open>onSubmit\<close> that calls
  \<^verbatim>\<open>sendMessage\<close>.
\<close>

definition handleSubmit :: "string \<Rightarrow> bool \<Rightarrow> bool \<Rightarrow> string option" where
  "handleSubmit val disabled isLoading =
     (if trim val \<noteq> [] \<and> \<not> disabled \<and> \<not> isLoading then Some (trim val) else None)"

definition isLoading :: "session \<Rightarrow> bool" where
  "isLoading s = (status s = ''streaming'')"

definition form_submit :: "(string \<Rightarrow> json option) \<Rightarrow> world \<Rightarrow> closure \<Rightarrow> bool \<Rightarrow> string \<Rightarrow> fetch_result \<Rightarrow> session \<Rightarrow> session \<times> nat option" where
  "form_submit parse w clo connection_error val res s =
     (case handleSubmit val (isLoading s \<or> connection_error) (isLoading s) of
        None \<Rightarrow> (s, None)
      | Some message \<Rightarrow> sendMessage parse w clo message res s)"

section \<open>The framer of the server\<close>

text \<open>
  \<^verbatim>\<open>AppController.getHello\<close> of \<^verbatim>\<open>server/src\<close>. A frame is one
  \<^verbatim>\<open>res.write\<close> of a tag, a colon, the \<^verbatim>\<open>JSON.stringify\<close> of a payload and a newline
  (the two frames written as literal text, \<^verbatim>\<open>0:{"type":"start"}\<close> and
  \<^verbatim>\<open>d:{"type":"finish"}\<close>, are the same text as the stringified objects). A chunk of
  the provider's stream is the \<^verbatim>\<open>content\<close> of its first choice's delta, \<open>None\<close> when
  any link of \<^verbatim>\<open>chunk.choices[0]?.delta?.content\<close> is missing or \<^verbatim>\<open>null\<close>.
\<close>

datatype frame = Frame string json

datatype upstream_end = Exhausted | Throws string

datatype upstream = ServiceFails string | Stream "string option list" upstream_end

record http_response =
  res_status :: nat
  res_headers :: "(string \<times> string) list"
  res_written :: "frame list"
  res_json :: "json option"

definition message_frame :: "string \<Rightarrow> json list \<Rightarrow> frame" where
  "message_frame messageId ps =
     Frame ''0'' (JObj [(''type'', JStr ''message''),
                        (''message'', JObj [(''id'', JStr messageId),
                                            (''role'', JStr ''assistant''),
                                            (''parts'', JArr ps)])])"

definition delta_frame :: "string \<Rightarrow> string \<Rightarrow> frame" where
  "delta_frame text_part_id delta =
     Frame ''0'' (JObj [(''type'', JStr ''text-delta''), (''id'', JStr text_part_id),
                        (''delta'', JStr delta)])"

text \<open>\<^verbatim>\<open>chunk.choices[0]?.delta?.content || ''\<close>.\<close>

definition delta_of :: "string option \<Rightarrow> string" where
  "delta_of chunk = (case chunk of None \<Rightarrow> [] | Some c \<Rightarrow> c)"

text \<open>
  The \<^verbatim>\<open>for await (const chunk of stream)\<close> loop: \<open>fullText\<close> and the frames written
  so far.
\<close>

fun stream_loop :: "string \<Rightarrow> string option list \<Rightarrow> string \<times> frame list \<Rightarrow> string \<times> frame list" where
  "stream_loop text_part_id [] (fullText, written) = (fullText, written)"
| "stream_loop text_part_id (chunk # rest) (fullText, written) =
     (let delta = delta_of chunk
      in if delta \<noteq> []
         then stream_loop text_part_id rest
                (fullText @ delta, written @ [delta_frame text_part_id delta])
         else stream_loop text_part_id rest (fullText, written))"

definition stream_headers :: "(string \<times> string) list" where
  "stream_headers =
     [(''Content-Type'', ''text/plain; charset=utf-8''),
      (''Cache-Control'', ''no-cache''),
      (''Connection'', ''keep-alive''),
      (''X-Accel-Buffering'', ''no''),
      (''Access-Control-Allow-Origin'', ''*''),
      (''Access-Control-Allow-Methods'', ''POST, OPTIONS''),
      (''Access-Control-Allow-Headers'', ''Content-Type''),
      (''x-vercel-ai-ui-message-stream'', ''v1'')]"

text \<open>
  The handler, given the value of \<^verbatim>\<open>Date.now()\<close> and what the service call and the
  provider's stream do: the stream's chunks are those delivered before it ends or
  throws.
\<close>

definition getHello :: "nat \<Rightarrow> upstream \<Rightarrow> http_response" where
  "getHello date_now up =
     (case up of
        ServiceFails e \<Rightarrow>
          \<lparr>res_status = 500, res_headers = [], res_written = [],
           res_json = Some (JObj [(''error'', JStr e)])\<rparr>
      | Stream chunks fin \<Rightarrow>
          (let messageId = ''msg_'' @ dec_nat date_now;
               text_part_id = ''text-'' @ messageId;
               opening = [Frame ''0'' (JObj [(''type'', JStr ''start'')]),
                          message_frame messageId [],
                          Frame ''0'' (JObj [(''type'', JStr ''text-start''),
                                             (''id'', JStr text_part_id)])];
               r = stream_loop text_part_id chunks ([], opening);
               fullText = fst r;
               written = snd r
           in \<lparr>res_status = 200, res_headers = stream_headers,
               res_written =
                 (case fin of
                    Exhausted \<Rightarrow>
                      written @
                      [Frame ''0'' (JObj [(''type'', JStr ''text-end''), (''id'', JStr text_part_id)]),
                       message_frame messageId
                         [JObj [(''type'', JStr ''text''), (''text'', JStr fullText)]],
                       Frame ''d'' (JObj [(''type'', JStr ''finish'')])]
                  | Throws e \<Rightarrow>
                      written @
                      [Frame ''e'' (JObj [(''type'', JStr ''error''), (''error'', JStr e)])]),
               res_json = None\<rparr>))"

section \<open>Sample data\<close>

text \<open>
  The frames of the examples below, as the server writes them, and \<^verbatim>\<open>JSON.parse\<close> on
  their payloads. Every other string the examples hand to the parser (\<open>bad_json\<close>) is
  one on which \<^verbatim>\<open>JSON.parse\<close> throws.
\<close>

definition p_start :: string where
  \<open>p_start = ''{"type":"start"}''\<close>

definition p_text_start :: string where
  \<open>p_text_start = ''{"type":"text-start","id":"T"}''\<close>

definition p_delta_Hi :: string where
  \<open>p_delta_Hi = ''{"type":"text-delta","id":"T","delta":"Hi"}''\<close>

definition p_delta_there :: string where
  \<open>p_delta_there = ''{"type":"text-delta","id":"T","delta":" there"}''\<close>

definition p_finish :: string where
  \<open>p_finish = ''{"type":"finish"}''\<close>

definition p_error :: string where
  \<open>p_error = ''{"type":"error","error":"boom"}''\<close>

definition bad_json :: string where
  \<open>bad_json = ''{bad json''\<close>

definition sample_parse :: "string \<Rightarrow> json option" where
  "sample_parse =
     map_of
       [(p_start, JObj [(''type'', JStr ''start'')]),
        (p_text_start, JObj [(''type'', JStr ''text-start''), (''id'', JStr ''T'')]),
        (p_delta_Hi, JObj [(''type'', JStr ''text-delta''), (''id'', JStr ''T''),
                           (''delta'', JStr ''Hi'')]),
        (p_delta_there, JObj [(''type'', JStr ''text-delta''), (''id'', JStr ''T''),
                              (''delta'', JStr '' there'')]),
        (p_finish, JObj [(''type'', JStr ''finish'')]),
        (p_error, JObj [(''type'', JStr ''error''), (''error'', JStr ''boom'')])]"

definition sample_world :: world where
  "sample_world = \<lparr>now = (\<lambda>t. 1700 + t), rand = (\<lambda>t. ''r'' @ dec_nat t)\<rparr>"

definition sample_closure :: closure where
  "sample_closure = \<lparr>cl_messages = [], cl_selectedModel = ''qwen-plus'', cl_maxRetries = 3\<rparr>"

text \<open>The state of a freshly mounted hook.\<close>

definition fresh_session :: session where
  "fresh_session =
     \<lparr>messages = [], status = ''ready'', error = None, input = [],
      selectedModel = ''qwen-plus'', abortControllerRef = False, retryCountRef = 0,
      ticks = 0, trace = []\<rparr>"

definition line_Hi :: string where
  "line_Hi = ''0:'' @ p_delta_Hi @ [nl]"

definition line_there :: string where
  "line_there = ''0:'' @ p_delta_there @ [nl]"

definition line_bad :: string where
  "line_bad = ''0:'' @ bad_json"

definition line_start :: string where
  "line_start = ''0:'' @ p_start @ [nl]"

definition finish_unterminated :: string where
  "finish_unterminated = ''d:'' @ p_finish"

definition line_error :: string where
  "line_error = ''e:'' @ p_error @ [nl]"

definition placeholder_session :: session where
  "placeholder_session =
     fst (sendMessage_open sample_world sample_closure ''Hello'' fresh_session)"

definition delta_unterminated :: "string list" where
  "delta_unterminated = [''0:'' @ p_text_start @ [nl] @ ''0:'' @ p_delta_Hi]"

definition delta_terminated :: "string list" where
  "delta_terminated = [''0:'' @ p_text_start @ [nl] @ ''0:'' @ p_delta_Hi @ [nl]]"

definition two_deltas_whole :: "string list" where
  "two_deltas_whole =
     [''0:'' @ p_text_start @ [nl] @ ''0:'' @ p_delta_Hi @ [nl] @ ''0:'' @ p_delta_there @ [nl]]"

definition two_deltas_split :: "string list" where
  "two_deltas_split =
     [''0:'' @ take 9 p_text_start, drop 9 p_text_start @ [nl] @ ''0'',
      '':'' @ p_delta_Hi, [nl] @ ''0:'' @ p_delta_there @ [nl]]"

definition sample_request_id :: string where
  "sample_request_id =
     snd (sendMessage_open sample_world sample_closure ''Hello'' fresh_session)"

definition abort_error :: js_error where
  "abort_error = JsError ''AbortError'' ''The user aborted a request.''"

text \<open>The session after a \<^verbatim>\<open>text-start\<close> and one delta have been processed.\<close>

definition streamed_session :: session where
  "streamed_session =
     fst (processStreamResponse sample_parse delta_terminated (Rejects abort_error)
            sample_request_id placeholder_session)"

definition closure_one_retry :: closure where
  "closure_one_retry = \<lparr>cl_messages = [], cl_selectedModel = ''qwen-plus'', cl_maxRetries = 1\<rparr>"

definition fail_then_succeed :: "fetch_result list" where
  "fail_then_succeed = [Response 500 [] Done, Response 200 delta_terminated Done]"

definition two_failures :: "fetch_result list" where
  "two_failures = [Response 500 [] Done, FetchRejects (JsError ''TypeError'' ''Failed to fetch'')]"

section \<open>Predicates of the statements\<close>

text \<open>
  The session at the moment the \<^verbatim>\<open>catch\<close> block of \<^verbatim>\<open>sendMessage\<close> is entered: the
  session after the synchronous part when \<^verbatim>\<open>fetch\<close> rejects or the status is not a
  success, the session that \<^verbatim>\<open>processStreamResponse\<close> leaves otherwise.
\<close>

definition before_catch :: "(string \<Rightarrow> json option) \<Rightarrow> string \<Rightarrow> fetch_result \<Rightarrow> session \<Rightarrow> session" where
  "before_catch parse messageId res s =
     (case res of
        FetchRejects e \<Rightarrow> s
      | Response code chunks fin \<Rightarrow>
          if response_ok code then fst (processStreamResponse parse chunks fin messageId s)
          else s)"

text \<open>
  The exception with which an attempt reaches the \<^verbatim>\<open>catch\<close> block of
  \<^verbatim>\<open>sendMessage\<close>, if it does: a rejected \<^verbatim>\<open>fetch\<close>, a status outside 200--299, or
  a rejected read of the body. A body that ends with \<^verbatim>\<open>done\<close> never fails.
\<close>

definition failure :: "fetch_result \<Rightarrow> js_error option" where
  "failure res =
     (case res of
        FetchRejects e \<Rightarrow> Some e
      | Response code chunks fin \<Rightarrow>
          if \<not> response_ok code
          then Some (JsError ''Error'' (''HTTP error! status: '' @ dec_nat code))
          else (case fin of Rejects e \<Rightarrow> Some e | Done \<Rightarrow> None))"

definition failure_text :: "fetch_result \<Rightarrow> string" where
  "failure_text res = (case failure res of None \<Rightarrow> [] | Some e \<Rightarrow> formatError e)"

definition fails_retryably :: "fetch_result \<Rightarrow> bool" where
  "fails_retryably res =
     (case failure res of None \<Rightarrow> False | Some e \<Rightarrow> err_name e \<noteq> ''AbortError'')"

text \<open>
  What processing a response body leaves alone in a session: everything but the
  status, the content of the messages and the \<^verbatim>\<open>setStatus\<close> entries of the trace, and
  those entries only ever set \<^verbatim>\<open>streaming\<close> or \<^verbatim>\<open>ready\<close>.
\<close>

definition other_effects :: "effect list \<Rightarrow> effect list" where
  "other_effects tr = filter (\<lambda>e. case e of SetStatus v \<Rightarrow> False | _ \<Rightarrow> True) tr"

definition statuses :: "effect list \<Rightarrow> string list" where
  "statuses tr = concat (map (\<lambda>e. case e of SetStatus v \<Rightarrow> [v] | _ \<Rightarrow> []) tr)"

definition unchanged_by_stream :: "session \<Rightarrow> session \<Rightarrow> bool" where
  "unchanged_by_stream s s' =
     (error s' = error s \<and> input s' = input s \<and> selectedModel s' = selectedModel s \<and>
      abortControllerRef s' = abortControllerRef s \<and> retryCountRef s' = retryCountRef s \<and>
      ticks s' = ticks s \<and>
      map msg_id (messages s') = map msg_id (messages s) \<and>
      map msg_role (messages s') = map msg_role (messages s) \<and>
      map msg_error (messages s') = map msg_error (messages s) \<and>
      other_effects (trace s') = other_effects (trace s) \<and>
      set (statuses (trace s')) \<subseteq> set (statuses (trace s)) \<union> {''streaming'', ''ready''})"

definition timeouts :: "effect list \<Rightarrow> nat list" where
  "timeouts tr = concat (map (\<lambda>e. case e of SetTimeout d \<Rightarrow> [d] | _ \<Rightarrow> []) tr)"

definition fetches :: "effect list \<Rightarrow> request list" where
  "fetches tr = concat (map (\<lambda>e. case e of Fetch rq \<Rightarrow> [rq] | _ \<Rightarrow> []) tr)"

text \<open>
  The final buffer \<open>b\<close> holds an event on which the code after the read loop acts: a
  \<^verbatim>\<open>message\<close> event with a truthy \<^verbatim>\<open>message\<close> field, or a \<^verbatim>\<open>finish\<close> event.
\<close>

definition acts_on_last :: "(string \<Rightarrow> json option) \<Rightarrow> string \<Rightarrow> bool" where
  "acts_on_last parse b =
     (case parseStreamData parse b of
        None \<Rightarrow> False
      | Some d \<Rightarrow> truthy (Some d) \<and>
                 (has_type d ''message'' \<and> truthy (get_prop d ''message'') \<or>
                  has_type d ''finish''))"

section \<open>Splitting on the newline\<close>

lemma split_from_seg:
  "split_from seg s = (seg @ hd (split_from [] s)) # tl (split_from [] s)"
proof (induction s arbitrary: seg)
  case Nil
  then show ?case by simp
next
  case (Cons c cs)
  show ?case
  proof (cases "c = nl")
    case True
    then show ?thesis by simp
  next
    case False
    have "split_from seg (c # cs) = split_from (seg @ [c]) cs"
      using False by simp
    also have "\<dots> = ((seg @ [c]) @ hd (split_from [] cs)) # tl (split_from [] cs)"
      by (rule Cons.IH)
    also have "split_from [] (c # cs) = ([c] @ hd (split_from [] cs)) # tl (split_from [] cs)"
      using False Cons.IH [of "[c]"] by simp
    then have "((seg @ [c]) @ hd (split_from [] cs)) # tl (split_from [] cs) =
               (seg @ hd (split_from [] (c # cs))) # tl (split_from [] (c # cs))"
      by simp
    finally show ?thesis .
  qed
qed

lemma split_nl_Nil [simp]: "split_nl [] = [[]]"
  by (simp add: split_nl_def)

lemma split_nl_Cons [simp]:
  "split_nl (c # cs) =
     (if c = nl then [] # split_nl cs else (c # hd (split_nl cs)) # tl (split_nl cs))"
  using split_from_seg [of "[c]" cs] by (simp add: split_nl_def)

lemma split_nl_nonempty: "split_nl s \<noteq> []"
  by (induction s) auto

lemma split_nl_no_nl: "nl \<notin> set s \<Longrightarrow> split_nl s = [s]"
  by (induction s) auto

lemma split_nl_segments: "seg \<in> set (split_nl s) \<Longrightarrow> nl \<notin> set seg"
proof (induction s arbitrary: seg)
  case Nil
  then show ?case by simp
next
  case (Cons c cs)
  obtain h t where ht: "split_nl cs = h # t"
    using split_nl_nonempty [of cs] by (cases "split_nl cs") auto
  with Cons show ?case by (auto split: if_splits)
qed

lemma last_split_nl_no_nl: "nl \<notin> set (last (split_nl s))"
  using split_nl_segments [of "last (split_nl s)" s] split_nl_nonempty [of s] by simp

lemma split_nl_append:
  "split_nl (a @ b) = butlast (split_nl a) @ split_nl (last (split_nl a) @ b)"
proof (induction a)
  case Nil
  then show ?case by simp
next
  case (Cons c cs)
  obtain h t where ht: "split_nl cs = h # t"
    using split_nl_nonempty [of cs] by (cases "split_nl cs") auto
  obtain h' t' where ht': "split_nl (cs @ b) = h' # t'"
    using split_nl_nonempty [of "cs @ b"] by (cases "split_nl (cs @ b)") auto
  show ?case
  proof (cases "c = nl")
    case True
    with Cons ht show ?thesis by simp
  next
    case False
    show ?thesis
    proof (cases t)
      case Nil
      with Cons ht ht' False show ?thesis by simp
    next
      case (Cons u us)
      with Cons.IH ht ht' False show ?thesis by simp
    qed
  qed
qed

lemma split_nl_line: "nl \<notin> set l \<Longrightarrow> split_nl (l @ nl # r) = l # split_nl r"
  by (induction l) auto

lemma last_split_nl_terminated: "pre = [] \<or> last pre = nl \<Longrightarrow> last (split_nl pre) = []"
proof (cases "pre = []")
  case True
  then show ?thesis by simp
next
  case False
  assume "pre = [] \<or> last pre = nl"
  with False have pre: "pre = butlast pre @ [nl]"
    using append_butlast_last_id [of pre] by simp
  have "split_nl (butlast pre @ [nl]) =
        butlast (split_nl (butlast pre)) @ split_nl (last (split_nl (butlast pre)) @ [nl])"
    by (rule split_nl_append)
  also have "split_nl (last (split_nl (butlast pre)) @ [nl]) = [last (split_nl (butlast pre)), []]"
    using split_nl_line [OF last_split_nl_no_nl, of "butlast pre" "[]"] by simp
  finally have "last (split_nl (butlast pre @ [nl])) = []" by simp
  with pre show ?thesis by simp
qed

lemma split_nl_after_terminated:
  "pre = [] \<or> last pre = nl \<Longrightarrow> split_nl (pre @ x) = butlast (split_nl pre) @ split_nl x"
  using split_nl_append [of pre x] last_split_nl_terminated [of pre] by simp

lemma for_lines_append:
  "for_lines parse f (xs @ ys) acc = for_lines parse f ys (for_lines parse f xs acc)"
  by (induction xs arbitrary: acc) auto

lemma read_loop_concat:
  "nl \<notin> set buf \<Longrightarrow>
   read_loop parse f cs (buf, acc) =
     (last (split_nl (buf @ concat cs)),
      for_lines parse f (butlast (split_nl (buf @ concat cs))) acc)"
proof (induction cs arbitrary: buf acc)
  case Nil
  then show ?case by (simp add: split_nl_no_nl)
next
  case (Cons c cs)
  let ?L = "split_nl (buf @ c)"
  have sp: "split_nl (buf @ c @ concat cs) = butlast ?L @ split_nl (last ?L @ concat cs)"
    using split_nl_append [of "buf @ c" "concat cs"] by simp
  have ne: "split_nl (last ?L @ concat cs) \<noteq> []" by (rule split_nl_nonempty)
  have "read_loop parse f (c # cs) (buf, acc) =
        read_loop parse f cs (last ?L, for_lines parse f (butlast ?L) acc)"
    by (simp add: Let_def)
  also have "\<dots> = (last (split_nl (last ?L @ concat cs)),
      for_lines parse f (butlast (split_nl (last ?L @ concat cs))) (for_lines parse f (butlast ?L) acc))"
    by (rule Cons.IH) (rule last_split_nl_no_nl)
  finally show ?case
    using ne by (simp add: sp butlast_append for_lines_append)
qed

lemma read_loop_start:
  "read_loop parse f cs ([], acc) =
     (last (split_nl (concat cs)), for_lines parse f (butlast (split_nl (concat cs))) acc)"
  using read_loop_concat [of "[]" parse f cs acc] by simp

lemma tagged_not_blank:
  "startsWith line ''0:'' \<or> startsWith line ''d:'' \<or> startsWith line ''e:'' \<Longrightarrow> trim line \<noteq> []"
  by (cases line) (auto simp: startsWith_def trim_def js_space_def)

lemma parseStreamData_bad:
  "\<not> (startsWith line ''0:'' \<or> startsWith line ''d:'' \<or> startsWith line ''e:'') \<or>
   parse (drop 2 line) = None \<Longrightarrow> parseStreamData parse line = None"
  by (auto simp: parseStreamData_def)


section \<open>Evaluating the samples\<close>

lemmas sample_defs = p_start_def p_text_start_def p_delta_Hi_def p_delta_there_def p_finish_def
  p_error_def bad_json_def sample_parse_def sample_world_def sample_closure_def
  fresh_session_def

lemmas decoder_defs = processStreamResponse_def on_last_buffer_def last_buffer_try_def
  on_event_def event_try_def has_type_def strict_eq_def finalText_def
  extractTextFromParts_def updateAssistantMessage_def setStatus_def init_locals_def
  on_line_def parseStreamData_def startsWith_def trim_def js_space_def split_nl_def Let_def

lemmas open_defs = sendMessage_open_def createMessage_def generateMessageId_def
  generateUserMessageId_def dec_nat.simps digit_def

section \<open>The decoder: splitting, faults, the last buffer\<close>

text \<open>
  Claim C2 (split-invariance). The read loop depends on the chunks only through their
  concatenation: two chunk sequences that carry the same bytes hand the same events,
  in the same order, to the body of the line loop, and \<^verbatim>\<open>processStreamResponse\<close>
  leaves the same session and the same exception behind, however the body ends. This
  holds for every byte sequence, so in particular for a valid newline-terminated
  sequence of frames.
\<close>

theorem decoder_split_invariance:
  assumes "concat chunks = concat chunks'"
  shows "loop_events parse chunks = loop_events parse chunks' \<and>
         processStreamResponse parse chunks fin messageId s =
         processStreamResponse parse chunks' fin messageId s"
  using assms by (simp add: loop_events_def processStreamResponse_def read_loop_start)

theorem decoder_split_invariance_witness:
  "concat two_deltas_split = concat two_deltas_whole \<and>
   loop_events sample_parse two_deltas_split = loop_events sample_parse two_deltas_whole \<and>
   processStreamResponse sample_parse two_deltas_split Done ''m'' placeholder_session =
   processStreamResponse sample_parse two_deltas_whole Done ''m'' placeholder_session"
proof -
  have h: "concat two_deltas_split = concat two_deltas_whole"
    by (simp add: two_deltas_split_def two_deltas_whole_def p_text_start_def)
  show ?thesis
    using h decoder_split_invariance [OF h, of sample_parse Done "''m''" placeholder_session]
    by simp
qed

lemma skip_line:
  assumes bad: "parseStreamData parse line = None"
      and noNl: "nl \<notin> set line"
      and pre: "pre = [] \<or> last pre = nl"
      and cat: "concat chunks = pre @ line @ nl # post"
  shows "read_loop parse f chunks ([], acc) = read_loop parse f [pre @ post] ([], acc)"
proof -
  let ?A = "butlast (split_nl pre)"
  let ?S = "split_nl post"
  have ne: "?S \<noteq> []" by (rule split_nl_nonempty)
  have l: "split_nl (concat chunks) = ?A @ line # ?S"
    using split_nl_after_terminated [OF pre, of "line @ nl # post"] split_nl_line [OF noNl, of post] cat
    by simp
  have r: "split_nl (pre @ post) = ?A @ ?S"
    by (rule split_nl_after_terminated [OF pre])
  have skip: "on_line parse f line x = x" for x
    using bad by (simp add: on_line_def)
  show ?thesis
    using ne by (simp add: read_loop_start l r butlast_append for_lines_append skip)
qed

text \<open>
  Claim C6 (fault isolation). A line that does not begin with \<^verbatim>\<open>0:\<close>, \<^verbatim>\<open>d:\<close> or
  \<^verbatim>\<open>e:\<close>, or whose text after the two-character tag does not parse as JSON, gives
  no event: \<^verbatim>\<open>parseStreamData\<close> returns \<^verbatim>\<open>null\<close>. The loop goes on: a stream that
  carries such a line between complete lines is processed exactly as the stream
  without that line, so every other line still yields its event and the session ends
  in the same state.
\<close>

theorem decoder_fault_isolation:
  assumes bad: "\<not> (startsWith line ''0:'' \<or> startsWith line ''d:'' \<or> startsWith line ''e:'') \<or>
                parse (drop 2 line) = None"
      and noNl: "nl \<notin> set line"
      and pre: "pre = [] \<or> last pre = nl"
      and cat: "concat chunks = pre @ line @ nl # post"
  shows "parseStreamData parse line = None \<and>
         loop_events parse chunks = loop_events parse [pre @ post] \<and>
         processStreamResponse parse chunks fin messageId s =
         processStreamResponse parse [pre @ post] fin messageId s"
proof -
  have none: "parseStreamData parse line = None"
    using bad by (rule parseStreamData_bad)
  have ev: "read_loop parse (\<lambda>d evs. evs @ [d]) chunks ([], []) =
            read_loop parse (\<lambda>d evs. evs @ [d]) [pre @ post] ([], [])"
    by (rule skip_line [OF none noNl pre cat])
  have st: "read_loop parse (on_event messageId) chunks ([], (init_locals, s)) =
            read_loop parse (on_event messageId) [pre @ post] ([], (init_locals, s))"
    by (rule skip_line [OF none noNl pre cat])
  show ?thesis
    unfolding loop_events_def processStreamResponse_def ev st using none by simp
qed

theorem decoder_fault_isolation_witness:
  "parseStreamData sample_parse line_bad = None \<and>
   loop_events sample_parse [line_Hi @ line_bad @ nl # line_there] =
   loop_events sample_parse [line_Hi @ line_there] \<and>
   processStreamResponse sample_parse [line_Hi @ line_bad @ nl # line_there] Done ''m''
     placeholder_session =
   processStreamResponse sample_parse [line_Hi @ line_there] Done ''m'' placeholder_session"
proof -
  have bad: "\<not> (startsWith line_bad ''0:'' \<or> startsWith line_bad ''d:'' \<or>
                startsWith line_bad ''e:'') \<or>
             sample_parse (drop 2 line_bad) = None"
    by (simp add: line_bad_def sample_defs)
  have noNl: "nl \<notin> set line_bad"
    by (simp add: line_bad_def bad_json_def)
  have pre: "line_Hi = [] \<or> last line_Hi = nl"
    by (simp add: line_Hi_def)
  have cat: "concat [line_Hi @ line_bad @ nl # line_there] = line_Hi @ line_bad @ nl # line_there"
    by simp
  show ?thesis
    using decoder_fault_isolation [where parse = sample_parse and line = line_bad
        and pre = line_Hi and post = line_there
        and chunks = "[line_Hi @ line_bad @ nl # line_there]"
        and fin = Done and messageId = "''m''" and s = placeholder_session, OF bad noNl pre cat]
    by simp
qed

lemma has_type_unique: "has_type d t \<Longrightarrow> has_type d t' \<Longrightarrow> t = t'"
  by (cases "get_prop d ''type''")
     (auto simp: has_type_def strict_eq_def split: json.splits)

lemma event_try_message:
  assumes "has_type d ''message''" and "truthy (get_prop d ''message'')"
  shows "event_try messageId d ls = last_buffer_try messageId d ls"
proof -
  have "\<not> has_type d ''start''" "\<not> has_type d ''text-start''" "\<not> has_type d ''text-delta''"
    using has_type_unique [OF assms(1)] by auto
  with assms show ?thesis
    by (simp add: event_try_def last_buffer_try_def)
qed

lemma event_try_finish:
  assumes "has_type d ''finish''"
  shows "event_try messageId d ls = last_buffer_try messageId d ls"
proof -
  have "\<not> has_type d ''start''" "\<not> has_type d ''text-start''" "\<not> has_type d ''text-delta''"
       "\<not> has_type d ''message''"
    using has_type_unique [OF assms(1)] by auto
  with assms show ?thesis
    by (simp add: event_try_def last_buffer_try_def)
qed

lemma on_last_buffer_acts:
  assumes "acts_on_last parse b"
  shows "on_last_buffer parse messageId b ls = on_line parse (on_event messageId) b ls"
proof -
  from assms obtain d where d: "parseStreamData parse b = Some d" "truthy (Some d)"
    and ty: "has_type d ''message'' \<and> truthy (get_prop d ''message'') \<or> has_type d ''finish''"
    by (auto simp: acts_on_last_def split: option.splits)
  have blank: "trim b \<noteq> []"
    using d(1) by (auto simp: parseStreamData_def split: if_splits)
  have "event_try messageId d ls = last_buffer_try messageId d ls"
    using ty event_try_message event_try_finish by blast
  then show ?thesis
    using d blank by (simp add: on_last_buffer_def on_line_def on_event_def)
qed

lemma last_buffer_try_other:
  assumes "\<not> (has_type d ''message'' \<and> truthy (get_prop d ''message''))" and "\<not> has_type d ''finish''"
  shows "last_buffer_try messageId d ls = Inr ls"
  using assms by (auto simp: last_buffer_try_def Let_def)

lemma on_last_buffer_drops:
  assumes "\<not> acts_on_last parse b"
  shows "on_last_buffer parse messageId b ls = ls"
proof (cases "parseStreamData parse b")
  case None
  then show ?thesis by (simp add: on_last_buffer_def)
next
  case (Some d)
  show ?thesis
  proof (cases "truthy (Some d)")
    case False
    with Some show ?thesis by (simp add: on_last_buffer_def)
  next
    case True
    with Some assms have "last_buffer_try messageId d ls = Inr ls"
      by (intro last_buffer_try_other) (auto simp: acts_on_last_def)
    with Some True show ?thesis by (simp add: on_last_buffer_def)
  qed
qed

lemma on_last_buffer_empty: "on_last_buffer parse messageId [] ls = ls"
  by (simp add: on_last_buffer_def trim_def)

text \<open>
  Claim C9, as amended. When the transport ends with text left in the buffer, the code
  after the read loop parses it with \<^verbatim>\<open>parseStreamData\<close> and acts on two kinds of
  event only: a \<^verbatim>\<open>message\<close> event with a message and a \<^verbatim>\<open>finish\<close> event. For those
  the outcome is the one of the same stream with the final newline added. Any other
  content of the final buffer is dropped: the outcome is the one of the stream cut
  before the final segment.
\<close>

theorem last_buffer_message_and_finish_only:
  assumes cat: "concat chunks = pre @ b"
      and pre: "pre = [] \<or> last pre = nl"
      and noNl: "nl \<notin> set b"
  shows "processStreamResponse parse chunks Done messageId s =
           (if acts_on_last parse b
            then processStreamResponse parse (chunks @ [[nl]]) Done messageId s
            else processStreamResponse parse [pre] Done messageId s)"
proof -
  let ?A = "butlast (split_nl pre)"
  have a: "split_nl (concat chunks) = ?A @ [b]"
    using split_nl_after_terminated [OF pre, of b] split_nl_no_nl [OF noNl] cat by simp
  have b: "split_nl (concat (chunks @ [[nl]])) = ?A @ [b, []]"
    using split_nl_after_terminated [OF pre, of "b @ [nl]"] split_nl_line [OF noNl, of "[]"] cat
    by simp
  have c: "split_nl pre = ?A @ [[]]"
    using last_split_nl_terminated [OF pre] split_nl_nonempty [of pre]
      append_butlast_last_id [of "split_nl pre"] by simp
  have c': "split_nl (concat [pre]) = ?A @ [[]]" using c by simp
  show ?thesis
    by (simp only: processStreamResponse_def read_loop_start a b c')
       (simp add: butlast_append for_lines_append on_last_buffer_empty on_last_buffer_acts
          on_last_buffer_drops)
qed

theorem last_buffer_message_and_finish_only_witness:
  "acts_on_last sample_parse finish_unterminated \<and>
   processStreamResponse sample_parse [line_start, finish_unterminated] Done ''m''
     placeholder_session =
   processStreamResponse sample_parse ([line_start, finish_unterminated] @ [[nl]]) Done ''m''
     placeholder_session"
proof -
  have cat: "concat [line_start, finish_unterminated] = line_start @ finish_unterminated"
    by simp
  have pre: "line_start = [] \<or> last line_start = nl"
    by (simp add: line_start_def)
  have noNl: "nl \<notin> set finish_unterminated"
    by (simp add: finish_unterminated_def p_finish_def)
  have acts: "acts_on_last sample_parse finish_unterminated"
    by (simp add: acts_on_last_def finish_unterminated_def sample_defs decoder_defs)
  show ?thesis
    using acts
      last_buffer_message_and_finish_only [OF cat pre noNl, of sample_parse "''m''"
        placeholder_session]
    by simp
qed

text \<open>
  Claim C9 as it is written fails for a \<^verbatim>\<open>text-delta\<close>: arriving as a complete line
  it puts its text into the assistant message; arriving as the unterminated final
  buffer it changes nothing.
\<close>

theorem last_buffer_drops_text_delta:
  "map msg_text (messages (fst (processStreamResponse sample_parse delta_terminated Done ''m''
      placeholder_session))) = [Some (JStr ''Hello''), Some (JStr ''Hi'')] \<and>
   map msg_text (messages (fst (processStreamResponse sample_parse delta_unterminated Done ''m''
      placeholder_session))) = [Some (JStr ''Hello''), None]"
  by (simp add: delta_terminated_def delta_unterminated_def placeholder_session_def
      sample_defs decoder_defs open_defs)

section \<open>The framer: the order of the frames\<close>

lemma stream_loop_closed:
  "stream_loop tid chunks (ft, wr) =
     (ft @ concat (filter (\<lambda>d. d \<noteq> []) (map delta_of chunks)),
      wr @ map (delta_frame tid) (filter (\<lambda>d. d \<noteq> []) (map delta_of chunks)))"
  by (induction chunks arbitrary: ft wr) (auto simp: Let_def)

text \<open>
  Claim C3. When the provider's stream ends without throwing, the handler has written,
  in this order: the \<^verbatim>\<open>start\<close> frame, a \<^verbatim>\<open>message\<close> frame with no parts, the
  \<^verbatim>\<open>text-start\<close> frame, one \<^verbatim>\<open>text-delta\<close> frame for each non-empty fragment in
  the order of the stream (an empty or missing fragment writes nothing), the
  \<^verbatim>\<open>text-end\<close> frame, a \<^verbatim>\<open>message\<close> frame whose only part is the text made of the
  emitted deltas in order, and the \<^verbatim>\<open>finish\<close> frame under the tag \<^verbatim>\<open>d\<close>.
\<close>

theorem framer_canonical_order:
  "res_written (getHello date_now (Stream chunks Exhausted)) =
     [Frame ''0'' (JObj [(''type'', JStr ''start'')]),
      message_frame (''msg_'' @ dec_nat date_now) [],
      Frame ''0'' (JObj [(''type'', JStr ''text-start''),
                         (''id'', JStr (''text-msg_'' @ dec_nat date_now))])] @
     map (delta_frame (''text-msg_'' @ dec_nat date_now))
       (filter (\<lambda>d. d \<noteq> []) (map delta_of chunks)) @
     [Frame ''0'' (JObj [(''type'', JStr ''text-end''),
                         (''id'', JStr (''text-msg_'' @ dec_nat date_now))]),
      message_frame (''msg_'' @ dec_nat date_now)
        [JObj [(''type'', JStr ''text''),
               (''text'', JStr (concat (filter (\<lambda>d. d \<noteq> []) (map delta_of chunks))))]],
      Frame ''d'' (JObj [(''type'', JStr ''finish'')])]"
proof -
  let ?ds = "filter (\<lambda>d. d \<noteq> []) (map delta_of chunks)"
  have loop: "stream_loop tid chunks ([], first) =
              (concat ?ds, first @ map (delta_frame tid) ?ds)" for tid first
    using stream_loop_closed [of tid chunks "[]" first] by simp
  show ?thesis
    by (simp add: getHello_def Let_def loop)
qed

section \<open>What processing a body leaves alone\<close>

lemma unchanged_refl: "unchanged_by_stream s s"
  by (auto simp: unchanged_by_stream_def)

lemma unchanged_trans:
  "unchanged_by_stream a b \<Longrightarrow> unchanged_by_stream b c \<Longrightarrow> unchanged_by_stream a c"
  unfolding unchanged_by_stream_def by auto

lemma unchanged_setStatus:
  "v = ''streaming'' \<or> v = ''ready'' \<Longrightarrow> unchanged_by_stream s (setStatus v s)"
  by (auto simp: unchanged_by_stream_def setStatus_def other_effects_def statuses_def)

lemma unchanged_update: "unchanged_by_stream s (updateAssistantMessage messageId t s)"
proof (cases "messages s \<noteq> [] \<and> msg_role (last (messages s)) = ''assistant''")
  case False
  then show ?thesis
    by (auto simp: updateAssistantMessage_def Let_def unchanged_refl)
next
  case True
  then have ms: "messages s = butlast (messages s) @ [last (messages s)]" by simp
  have "map msg_id (messages s) = map msg_id (butlast (messages s)) @ [msg_id (last (messages s))]"
       "map msg_role (messages s) = map msg_role (butlast (messages s)) @ [msg_role (last (messages s))]"
       "map msg_error (messages s) = map msg_error (butlast (messages s)) @ [msg_error (last (messages s))]"
    using arg_cong [OF ms, of "map msg_id"] arg_cong [OF ms, of "map msg_role"]
      arg_cong [OF ms, of "map msg_error"] by simp_all
  with True show ?thesis
    by (auto simp: updateAssistantMessage_def Let_def unchanged_by_stream_def)
qed

lemma unchanged_event_try:
  "event_try messageId d (l, s) = Inr (l', s') \<Longrightarrow> unchanged_by_stream s s'"
  by (auto simp: event_try_def Let_def unchanged_refl unchanged_setStatus unchanged_update
      split: if_splits option.splits sum.splits)

lemma unchanged_on_event: "unchanged_by_stream s (snd (on_event messageId d (l, s)))"
proof (cases "event_try messageId d (l, s)")
  case (Inl e)
  then show ?thesis by (simp add: on_event_def unchanged_refl)
next
  case (Inr r)
  then show ?thesis
    using unchanged_event_try [of messageId d l s "fst r" "snd r"] by (simp add: on_event_def)
qed

lemma unchanged_on_line:
  "unchanged_by_stream s (snd (on_line parse (on_event messageId) line (l, s)))"
  by (auto simp: on_line_def unchanged_refl unchanged_on_event split: option.splits)

lemma unchanged_for_lines:
  "unchanged_by_stream s (snd (for_lines parse (on_event messageId) lines (l, s)))"
proof (induction lines arbitrary: l s)
  case Nil
  then show ?case by (simp add: unchanged_refl)
next
  case (Cons line rest)
  obtain l1 s1 where step: "on_line parse (on_event messageId) line (l, s) = (l1, s1)"
    by (cases "on_line parse (on_event messageId) line (l, s)")
  have "unchanged_by_stream s s1"
    using unchanged_on_line [of s parse messageId line l] step by simp
  moreover have "unchanged_by_stream s1 (snd (for_lines parse (on_event messageId) rest (l1, s1)))"
    by (rule Cons.IH)
  ultimately show ?case
    using step unchanged_trans by simp
qed

lemma unchanged_last_buffer_try:
  "last_buffer_try messageId d (l, s) = Inr (l', s') \<Longrightarrow> unchanged_by_stream s s'"
  by (auto simp: last_buffer_try_def Let_def unchanged_refl unchanged_setStatus unchanged_update
      split: if_splits option.splits sum.splits)

lemma unchanged_on_last_buffer:
  "unchanged_by_stream s (snd (on_last_buffer parse messageId b (l, s)))"
proof -
  have "unchanged_by_stream s (snd (case last_buffer_try messageId d (l, s) of
          Inl e \<Rightarrow> (l, s) | Inr ls' \<Rightarrow> ls'))" for d
    using unchanged_last_buffer_try [of messageId d l s]
    by (cases "last_buffer_try messageId d (l, s)") (auto simp: unchanged_refl)
  then show ?thesis
    by (auto simp: on_last_buffer_def unchanged_refl split: option.splits)
qed


lemma psr_unchanged:
  "unchanged_by_stream s (fst (processStreamResponse parse chunks fin messageId s))"
proof -
  let ?L = "butlast (split_nl (concat chunks))"
  let ?r = "for_lines parse (on_event messageId) ?L (init_locals, s)"
  have a: "unchanged_by_stream s (snd ?r)"
    by (rule unchanged_for_lines)
  have b: "unchanged_by_stream (snd ?r)
             (snd (on_last_buffer parse messageId (last (split_nl (concat chunks))) ?r))"
    using unchanged_on_last_buffer [of "snd ?r" parse messageId _ "fst ?r"] by simp
  have c: "unchanged_by_stream x (setStatus ''ready'' x)" for x
    by (rule unchanged_setStatus) simp
  show ?thesis
  proof (cases fin)
    case Done
    then show ?thesis
      using unchanged_trans [OF unchanged_trans [OF a b] c]
      by (simp add: processStreamResponse_def read_loop_start)
  next
    case (Rejects e)
    then show ?thesis
      using a by (simp add: processStreamResponse_def read_loop_start)
  qed
qed

lemma psr_thrown:
  "snd (processStreamResponse parse chunks fin messageId s) =
     (case fin of Done \<Rightarrow> None | Rejects e \<Rightarrow> Some e)"
  by (simp add: processStreamResponse_def Let_def split: read_end.splits)

lemma psr_done_status:
  "status (fst (processStreamResponse parse chunks Done messageId s)) = ''ready''"
  by (simp add: processStreamResponse_def Let_def setStatus_def)

lemma psr_done_last:
  "trace (fst (processStreamResponse parse chunks Done messageId s)) \<noteq> [] \<and>
   last (trace (fst (processStreamResponse parse chunks Done messageId s))) = SetStatus ''ready''"
  by (simp add: processStreamResponse_def Let_def setStatus_def)

lemma timeouts_other: "other_effects tr = other_effects tr' \<Longrightarrow> timeouts tr = timeouts tr'"
proof -
  have "timeouts t = timeouts (other_effects t)" for t
    by (induction t) (auto simp: timeouts_def other_effects_def split: effect.splits)
  then show "other_effects tr = other_effects tr' \<Longrightarrow> timeouts tr = timeouts tr'"
    by metis
qed

lemma fetches_other: "other_effects tr = other_effects tr' \<Longrightarrow> fetches tr = fetches tr'"
proof -
  have "fetches t = fetches (other_effects t)" for t
    by (induction t) (auto simp: fetches_def other_effects_def split: effect.splits)
  then show "other_effects tr = other_effects tr' \<Longrightarrow> fetches tr = fetches tr'"
    by metis
qed

lemma open_fields:
  "error (fst (sendMessage_open w clo mc s)) = None"
  "status (fst (sendMessage_open w clo mc s)) = ''streaming''"
  "retryCountRef (fst (sendMessage_open w clo mc s)) = retryCountRef s"
  "abortControllerRef (fst (sendMessage_open w clo mc s))"
  "timeouts (trace (fst (sendMessage_open w clo mc s))) = timeouts (trace s)"
  by (simp_all add: sendMessage_open_def Let_def setStatus_def timeouts_def)

section \<open>The end of the stream\<close>

text \<open>
  Claim C10. When the reader reports \<^verbatim>\<open>done\<close>, \<^verbatim>\<open>processStreamResponse\<close> returns
  normally whatever frames arrived, in particular when neither a \<^verbatim>\<open>finish\<close> nor an
  \<^verbatim>\<open>error\<close> frame did: \<^verbatim>\<open>sendMessage\<close> then sets no retry timer, leaves the status
  \<^verbatim>\<open>ready\<close>, the retry counter 0 and the error empty, and calls \<^verbatim>\<open>onSuccess\<close>.
\<close>

theorem stream_end_without_finish_is_success:
  assumes valid: "validateInput messageContent = None"
      and ok: "response_ok code"
  shows "snd (sendMessage parse w clo messageContent (Response code chunks Done) s) = None \<and>
         status (fst (sendMessage parse w clo messageContent (Response code chunks Done) s)) =
           ''ready'' \<and>
         retryCountRef (fst (sendMessage parse w clo messageContent (Response code chunks Done) s)) =
           0 \<and>
         error (fst (sendMessage parse w clo messageContent (Response code chunks Done) s)) =
           None \<and>
         timeouts (trace (fst (sendMessage parse w clo messageContent (Response code chunks Done) s))) =
           timeouts (trace s) \<and>
         last (trace (fst (sendMessage parse w clo messageContent (Response code chunks Done) s))) =
           OnSuccess"
proof -
  obtain s1 mid where op: "sendMessage_open w clo messageContent s = (s1, mid)"
    by (cases "sendMessage_open w clo messageContent s")
  obtain s2 thrown where psr: "processStreamResponse parse chunks Done mid s1 = (s2, thrown)"
    by (cases "processStreamResponse parse chunks Done mid s1")
  have thrown: "thrown = None"
    using psr_thrown [of parse chunks Done mid s1] psr by simp
  have un: "unchanged_by_stream s1 s2"
    using psr_unchanged [of s1 parse chunks Done mid] psr by simp
  have st: "status s2 = ''ready''"
    using psr_done_status [of parse chunks mid s1] psr by simp
  have s1: "error s1 = None" "timeouts (trace s1) = timeouts (trace s)"
    using open_fields(1,5) [of w clo messageContent s] op by simp_all
  have res: "sendMessage parse w clo messageContent (Response code chunks Done) s =
             (s2\<lparr>retryCountRef := 0, trace := trace s2 @ [OnSuccess], abortControllerRef := False\<rparr>,
              None)"
    using valid ok op psr thrown
    by (simp add: sendMessage_def sendMessage_settle_def finally_clear_def)
  have "error s2 = None" "timeouts (trace s2) = timeouts (trace s)"
    using un s1 timeouts_other [of "trace s2" "trace s1"] by (simp_all add: unchanged_by_stream_def)
  then show ?thesis
    using st by (simp add: res timeouts_def)
qed


theorem stream_end_without_finish_is_success_witness:
  "validateInput ''Hello'' = None \<and> response_ok 200 \<and>
   snd (sendMessage sample_parse sample_world sample_closure ''Hello''
          (Response 200 delta_terminated Done) fresh_session) = None \<and>
   status (fst (sendMessage sample_parse sample_world sample_closure ''Hello''
          (Response 200 delta_terminated Done) fresh_session)) = ''ready'' \<and>
   retryCountRef (fst (sendMessage sample_parse sample_world sample_closure ''Hello''
          (Response 200 delta_terminated Done) fresh_session)) = 0 \<and>
   error (fst (sendMessage sample_parse sample_world sample_closure ''Hello''
          (Response 200 delta_terminated Done) fresh_session)) = None \<and>
   last (trace (fst (sendMessage sample_parse sample_world sample_closure ''Hello''
          (Response 200 delta_terminated Done) fresh_session))) = OnSuccess"
proof -
  have valid: "validateInput ''Hello'' = None"
    by (simp add: validateInput_def trim_def js_space_def)
  have ok: "response_ok 200"
    by (simp add: response_ok_def)
  show ?thesis
    using valid ok
      stream_end_without_finish_is_success [OF valid ok, of sample_parse sample_world
        sample_closure delta_terminated fresh_session]
    by simp
qed

section \<open>An error frame\<close>

lemmas session_defs = sendMessage_def sendMessage_settle_def sendMessage_catch_def
  finally_clear_def validateInput_def response_ok_def formatError_def

text \<open>
  Claim C1 says that an \<^verbatim>\<open>error\<close> event fails the attempt and sends it to the retry
  path. The code throws an \<^verbatim>\<open>Error\<close> for the event, but inside the \<^verbatim>\<open>try\<close> block
  of the line loop, whose \<^verbatim>\<open>catch\<close> logs it and goes on. Evaluated on a response whose
  body is the one frame \<^verbatim>\<open>e:{"type":"error","error":"boom"}\<close>: the exception is
  raised and dropped, no retry timer is set, no error is recorded in the session or
  on a message, the retry counter is 0 and \<^verbatim>\<open>onSuccess\<close> is called.
\<close>

theorem error_frame_is_swallowed:
  "event_try ''m'' (JObj [(''type'', JStr ''error''), (''error'', JStr ''boom'')])
     (init_locals, placeholder_session) = Inl (JsError ''Error'' ''boom'') \<and>
   on_event ''m'' (JObj [(''type'', JStr ''error''), (''error'', JStr ''boom'')])
     (init_locals, placeholder_session) = (init_locals, placeholder_session) \<and>
   snd (sendMessage sample_parse sample_world sample_closure ''Hello''
          (Response 200 [line_error] Done) fresh_session) = None \<and>
   error (fst (sendMessage sample_parse sample_world sample_closure ''Hello''
          (Response 200 [line_error] Done) fresh_session)) = None \<and>
   retryCountRef (fst (sendMessage sample_parse sample_world sample_closure ''Hello''
          (Response 200 [line_error] Done) fresh_session)) = 0 \<and>
   map msg_error (messages (fst (sendMessage sample_parse sample_world sample_closure ''Hello''
          (Response 200 [line_error] Done) fresh_session))) = [None, None] \<and>
   timeouts (trace (fst (sendMessage sample_parse sample_world sample_closure ''Hello''
          (Response 200 [line_error] Done) fresh_session))) = [] \<and>
   last (trace (fst (sendMessage sample_parse sample_world sample_closure ''Hello''
          (Response 200 [line_error] Done) fresh_session))) = OnSuccess"
  by (simp add: line_error_def placeholder_session_def session_defs sample_defs decoder_defs
      open_defs timeouts_def)


section \<open>Cancelling\<close>

text \<open>
  Claim C8. A request is in flight (\<open>s1\<close>), some chunks have been processed (\<open>s2\<close>),
  the user calls \<^verbatim>\<open>abortRequest\<close>, the pending read rejects with an \<^verbatim>\<open>AbortError\<close>
  and \<^verbatim>\<open>sendMessage\<close> runs its \<^verbatim>\<open>catch\<close> and \<^verbatim>\<open>finally\<close> blocks (\<open>s3\<close>). Then the
  status is \<^verbatim>\<open>ready\<close>, no error is set, no retry timer is set and the retry counter
  is untouched, and the messages are those the processed chunks left: the text
  accumulated so far stays.
\<close>

theorem cancel_in_flight_keeps_text:
  assumes op: "sendMessage_open w clo messageContent s = (s1, mid)"
      and rd: "processStreamResponse parse chunks (Rejects e) mid s1 = (s2, thrown)"
      and ab: "err_name e = ''AbortError''"
      and fin: "finally_clear (sendMessage_catch clo mid e (abortRequest s2)) = (s3, retry)"
  shows "thrown = Some e \<and> retry = None \<and> status s3 = ''ready'' \<and> error s3 = None \<and>
         retryCountRef s3 = retryCountRef s \<and> messages s3 = messages s2 \<and>
         trace s3 = trace s2 @ [SetStatus ''ready'', SetStatus ''ready''] \<and>
         \<not> abortControllerRef s3"
proof -
  have thrown: "thrown = Some e"
    using psr_thrown [of parse chunks "Rejects e" mid s1] rd by simp
  have un: "unchanged_by_stream s1 s2"
    using psr_unchanged [of s1 parse chunks "Rejects e" mid] rd by simp
  have s1: "error s1 = None" "retryCountRef s1 = retryCountRef s" "abortControllerRef s1"
    using open_fields(1,3,4) [of w clo messageContent s] op by simp_all
  have s2: "error s2 = None" "retryCountRef s2 = retryCountRef s" "abortControllerRef s2"
    using un s1 by (simp_all add: unchanged_by_stream_def)
  have "abortRequest s2 = setStatus ''ready'' s2"
    using s2(3) by (simp add: abortRequest_def)
  then have "(s3, retry) =
       ((setStatus ''ready'' (setStatus ''ready'' s2))\<lparr>abortControllerRef := False\<rparr>, None)"
    using fin ab by (simp add: sendMessage_catch_def finally_clear_def)
  then show ?thesis
    using thrown s2 by (simp add: setStatus_def)
qed

theorem cancel_in_flight_keeps_text_witness:
  "err_name abort_error = ''AbortError'' \<and>
   map msg_text (messages streamed_session) = [Some (JStr ''Hello''), Some (JStr ''Hi'')] \<and>
   messages (fst (finally_clear (sendMessage_catch sample_closure sample_request_id abort_error
      (abortRequest streamed_session)))) = messages streamed_session \<and>
   status (fst (finally_clear (sendMessage_catch sample_closure sample_request_id abort_error
      (abortRequest streamed_session)))) = ''ready'' \<and>
   error (fst (finally_clear (sendMessage_catch sample_closure sample_request_id abort_error
      (abortRequest streamed_session)))) = None \<and>
   snd (finally_clear (sendMessage_catch sample_closure sample_request_id abort_error
      (abortRequest streamed_session))) = None"
proof -
  have op: "sendMessage_open sample_world sample_closure ''Hello'' fresh_session =
            (placeholder_session, sample_request_id)"
    by (simp add: placeholder_session_def sample_request_id_def)
  have rd: "processStreamResponse sample_parse delta_terminated (Rejects abort_error)
              sample_request_id placeholder_session =
            (streamed_session,
             snd (processStreamResponse sample_parse delta_terminated (Rejects abort_error)
                    sample_request_id placeholder_session))"
    by (simp add: streamed_session_def)
  have ab: "err_name abort_error = ''AbortError''"
    by (simp add: abort_error_def)
  have fin: "finally_clear (sendMessage_catch sample_closure sample_request_id abort_error
               (abortRequest streamed_session)) =
             (fst (finally_clear (sendMessage_catch sample_closure sample_request_id abort_error
               (abortRequest streamed_session))),
              snd (finally_clear (sendMessage_catch sample_closure sample_request_id abort_error
               (abortRequest streamed_session))))"
    by simp
  have kept: "map msg_text (messages streamed_session) = [Some (JStr ''Hello''), Some (JStr ''Hi'')]"
    by (simp add: streamed_session_def delta_terminated_def placeholder_session_def
        sample_defs decoder_defs open_defs)
  show ?thesis
    using ab kept cancel_in_flight_keeps_text [OF op rd ab fin] by simp
qed

section \<open>Submitting while streaming\<close>

text \<open>
  Claim C5, as amended. The guard against a second submit is in the input form, not in
  \<^verbatim>\<open>sendMessage\<close>: while the status is \<^verbatim>\<open>streaming\<close>, \<^verbatim>\<open>handleSubmit\<close> of
  \<^verbatim>\<open>InputArea\<close> does not call \<^verbatim>\<open>onSubmit\<close>, so a submit through the form appends no
  message, opens no request and leaves the session as it is.
\<close>

theorem form_submit_while_streaming_is_noop:
  assumes "status s = ''streaming''"
  shows "form_submit parse w clo connection_error val res s = (s, None)"
  using assms by (simp add: form_submit_def handleSubmit_def isLoading_def)

theorem form_submit_while_streaming_is_noop_witness:
  "status placeholder_session = ''streaming'' \<and>
   form_submit sample_parse sample_world sample_closure False ''again'' (Response 200 [] Done)
     placeholder_session = (placeholder_session, None)"
proof -
  have st: "status placeholder_session = ''streaming''"
    unfolding placeholder_session_def by (rule open_fields(2))
  show ?thesis
    using st form_submit_while_streaming_is_noop [OF st, of sample_parse sample_world
        sample_closure False "''again''" "Response 200 [] Done"]
    by simp
qed

text \<open>
  Claim C5 as it is written fails for \<^verbatim>\<open>sendMessage\<close> itself, which does not read
  the status: called on a streaming session (as \<^verbatim>\<open>retryLastMessage\<close> may do) it appends
  two more messages and opens a second request.
\<close>

theorem sendMessage_while_streaming_opens_second_request:
  "status placeholder_session = ''streaming'' \<and>
   length (messages placeholder_session) = 2 \<and>
   length (fetches (trace placeholder_session)) = 1 \<and>
   length (messages (fst (sendMessage sample_parse sample_world sample_closure ''again''
      (Response 200 [] Done) placeholder_session))) = 4 \<and>
   length (fetches (trace (fst (sendMessage sample_parse sample_world sample_closure ''again''
      (Response 200 [] Done) placeholder_session)))) = 2"
  by (simp add: placeholder_session_def session_defs sample_defs decoder_defs open_defs
      fetches_def)

section \<open>A failed attempt\<close>

lemmas run_defs = session_defs sample_defs decoder_defs open_defs closure_one_retry_def
  two_failures_def fail_then_succeed_def delta_terminated_def


lemma sendMessage_valid:
  assumes "validateInput mc = None" and "sendMessage_open w clo mc s = (s1, mid)"
  shows "sendMessage parse w clo mc res s = sendMessage_settle parse clo mid res s1"
  using assms by (simp add: sendMessage_def)

lemma psr_pair:
  "processStreamResponse parse chunks fin mid s =
     (fst (processStreamResponse parse chunks fin mid s),
      case fin of Done \<Rightarrow> None | Rejects e \<Rightarrow> Some e)"
  using psr_thrown [of parse chunks fin mid s]
  by (cases "processStreamResponse parse chunks fin mid s") simp

lemma settle_failure:
  assumes "failure res = Some e"
  shows "sendMessage_settle parse clo mid res s =
           finally_clear (sendMessage_catch clo mid e (before_catch parse mid res s))"
proof (cases res)
  case (FetchRejects x)
  with assms show ?thesis
    by (simp add: failure_def sendMessage_settle_def before_catch_def)
next
  case (Response code chunks fin)
  show ?thesis
  proof (cases "response_ok code")
    case False
    with assms Response show ?thesis
      by (auto simp: failure_def sendMessage_settle_def before_catch_def)
  next
    case True
    with assms Response have fin: "fin = Rejects e"
      by (cases fin) (auto simp: failure_def)
    obtain s' where "processStreamResponse parse chunks (Rejects e) mid s = (s', Some e)"
      using psr_pair [of parse chunks "Rejects e" mid s] by simp
    then show ?thesis
      using True Response fin
      by (simp add: sendMessage_settle_def before_catch_def)
  qed
qed

lemma settle_success:
  assumes "failure res = None"
  shows "sendMessage_settle parse clo mid res s =
           finally_clear ((before_catch parse mid res s)
              \<lparr>retryCountRef := 0,
               trace := trace (before_catch parse mid res s) @ [OnSuccess]\<rparr>, None)"
proof (cases res)
  case (FetchRejects x)
  with assms show ?thesis by (simp add: failure_def)
next
  case (Response code chunks fin)
  with assms have ok: "response_ok code" and fin: "fin = Done"
    by (auto simp: failure_def split: if_splits read_end.splits)
  obtain s' where "processStreamResponse parse chunks Done mid s = (s', None)"
    using psr_pair [of parse chunks Done mid s] by simp
  then show ?thesis
    using ok fin Response by (simp add: sendMessage_settle_def before_catch_def)
qed

lemma before_catch_unchanged: "unchanged_by_stream s (before_catch parse mid res s)"
  by (auto simp: before_catch_def unchanged_refl psr_unchanged split: fetch_result.splits)

lemma statuses_append: "statuses (a @ b) = statuses a @ statuses b"
  by (simp add: statuses_def)

lemma timeouts_append: "timeouts (a @ b) = timeouts a @ timeouts b"
  by (simp add: timeouts_def)

lemma open_more:
  "ticks (fst (sendMessage_open w clo mc s)) = ticks s + 3"
  "snd (sendMessage_open w clo mc s) = generateMessageId w (ticks s + 1)"
  "map msg_id (messages (fst (sendMessage_open w clo mc s))) =
     map msg_id (messages s) @ [generateUserMessageId w (ticks s), generateMessageId w (ticks s + 2)]"
  "map msg_role (messages (fst (sendMessage_open w clo mc s))) =
     map msg_role (messages s) @ [''user'', ''assistant'']"
  "statuses (trace (fst (sendMessage_open w clo mc s))) = statuses (trace s) @ [''streaming'']"
  by (simp_all add: sendMessage_open_def Let_def setStatus_def createMessage_def statuses_def)

lemma open_text:
  "mc \<noteq> [] \<Longrightarrow>
   map msg_text (messages (fst (sendMessage_open w clo mc s))) =
     map msg_text (messages s) @ [Some (JStr mc), None]"
  by (simp add: sendMessage_open_def Let_def setStatus_def createMessage_def)

lemma open_request:
  "fetches (trace (fst (sendMessage_open w clo mc s))) =
     fetches (trace s) @
     [\<lparr>req_id = generateMessageId w (ticks s + 1),
       req_messages = cl_messages clo @
         [createMessage w (ticks s)
            \<lparr>opt_id = None, opt_role = ''user'', opt_content = mc, opt_parts = []\<rparr>],
       req_model = cl_selectedModel clo, req_trigger = ''submit-message''\<rparr>]"
  by (simp add: sendMessage_open_def Let_def setStatus_def fetches_def)

lemma valid_nonempty: "validateInput mc = None \<Longrightarrow> mc \<noteq> []"
  by (auto simp: validateInput_def trim_def Let_def split: if_splits)

lemma catch_retry:
  assumes "err_name e \<noteq> ''AbortError''" and "retryCountRef s < cl_maxRetries clo"
  shows "sendMessage_catch clo mid e s =
           (s\<lparr>retryCountRef := retryCountRef s + 1,
              messages := filter (\<lambda>m. msg_id m \<noteq> mid) (messages s),
              trace := trace s @ [SetTimeout (1000 * (retryCountRef s + 1))]\<rparr>,
            Some (1000 * (retryCountRef s + 1)))"
  using assms by (simp add: sendMessage_catch_def Let_def)

lemma catch_final:
  assumes "err_name e \<noteq> ''AbortError''" and "\<not> retryCountRef s < cl_maxRetries clo"
  shows "snd (sendMessage_catch clo mid e s) = None"
    and "error (fst (sendMessage_catch clo mid e s)) = Some (formatError e)"
    and "status (fst (sendMessage_catch clo mid e s)) = ''ready''"
    and "retryCountRef (fst (sendMessage_catch clo mid e s)) = retryCountRef s"
    and "trace (fst (sendMessage_catch clo mid e s)) =
           trace s @ [SetStatus ''ready'', OnError (formatError e)]"
  using assms by (simp_all add: sendMessage_catch_def Let_def setStatus_def)


lemma attempt_retry:
  assumes valid: "validateInput mc = None"
      and fails: "failure res = Some e"
      and notAbort: "err_name e \<noteq> ''AbortError''"
      and budget: "retryCountRef s < cl_maxRetries clo"
  shows "snd (sendMessage parse w clo mc res s) = Some (1000 * (retryCountRef s + 1))"
    and "retryCountRef (fst (sendMessage parse w clo mc res s)) = retryCountRef s + 1"
    and "timeouts (trace (fst (sendMessage parse w clo mc res s))) =
           timeouts (trace s) @ [1000 * (retryCountRef s + 1)]"
    and "map msg_id (messages (fst (sendMessage parse w clo mc res s))) =
           filter (\<lambda>i. i \<noteq> generateMessageId w (ticks s + 1))
             (map msg_id (messages s) @
              [generateUserMessageId w (ticks s), generateMessageId w (ticks s + 2)])"
    and "ticks (fst (sendMessage parse w clo mc res s)) = ticks s + 3"
    and "set (statuses (trace (fst (sendMessage parse w clo mc res s)))) \<subseteq>
           set (statuses (trace s)) \<union> {''streaming'', ''ready''}"
proof -
  obtain s1 mid where op: "sendMessage_open w clo mc s = (s1, mid)"
    by (cases "sendMessage_open w clo mc s")
  let ?b = "before_catch parse mid res s1"
  have un: "unchanged_by_stream s1 ?b" by (rule before_catch_unchanged)
  have s1: "retryCountRef s1 = retryCountRef s" "timeouts (trace s1) = timeouts (trace s)"
    "ticks s1 = ticks s + 3" "mid = generateMessageId w (ticks s + 1)"
    "map msg_id (messages s1) =
       map msg_id (messages s) @ [generateUserMessageId w (ticks s), generateMessageId w (ticks s + 2)]"
    "statuses (trace s1) = statuses (trace s) @ [''streaming'']"
    using open_fields(3,5) [of w clo mc s] open_more(1,2,3,5) [of w clo mc s] op by simp_all
  have b: "retryCountRef ?b = retryCountRef s" "timeouts (trace ?b) = timeouts (trace s)"
    "ticks ?b = ticks s + 3" "map msg_id (messages ?b) = map msg_id (messages s1)"
    "set (statuses (trace ?b)) \<subseteq> set (statuses (trace s)) \<union> {''streaming'', ''ready''}"
    using un s1 timeouts_other [of "trace ?b" "trace s1"]
    by (auto simp: unchanged_by_stream_def)
  have lt: "retryCountRef ?b < cl_maxRetries clo" using b(1) budget by simp
  have run: "sendMessage parse w clo mc res s =
               finally_clear (sendMessage_catch clo mid e ?b)"
    using sendMessage_valid [OF valid op] settle_failure [OF fails] by simp
  have r: "fst (sendMessage parse w clo mc res s) =
             ?b\<lparr>retryCountRef := retryCountRef ?b + 1,
                messages := filter (\<lambda>m. msg_id m \<noteq> mid) (messages ?b),
                trace := trace ?b @ [SetTimeout (1000 * (retryCountRef ?b + 1))],
                abortControllerRef := False\<rparr>"
          "snd (sendMessage parse w clo mc res s) = Some (1000 * (retryCountRef ?b + 1))"
    by (simp_all add: run catch_retry [OF notAbort lt] finally_clear_def)
  show "snd (sendMessage parse w clo mc res s) = Some (1000 * (retryCountRef s + 1))"
    by (simp add: r(2) b(1))
  show "retryCountRef (fst (sendMessage parse w clo mc res s)) = retryCountRef s + 1"
    by (simp add: r(1) b(1))
  show "timeouts (trace (fst (sendMessage parse w clo mc res s))) =
           timeouts (trace s) @ [1000 * (retryCountRef s + 1)]"
    by (simp add: r(1) b(1,2) timeouts_append) (simp add: timeouts_def)
  show "ticks (fst (sendMessage parse w clo mc res s)) = ticks s + 3"
    by (simp add: r(1) b(3))
  have "map msg_id (messages (fst (sendMessage parse w clo mc res s))) =
        filter (\<lambda>i. i \<noteq> mid) (map msg_id (messages ?b))"
    by (simp add: r(1) filter_map comp_def)
  also have "\<dots> = filter (\<lambda>i. i \<noteq> mid)
        (map msg_id (messages s) @
         [generateUserMessageId w (ticks s), generateMessageId w (ticks s + 2)])"
    by (simp only: b(4) s1(5))
  also have "\<dots> = filter (\<lambda>i. i \<noteq> generateMessageId w (ticks s + 1))
        (map msg_id (messages s) @
         [generateUserMessageId w (ticks s), generateMessageId w (ticks s + 2)])"
    by (simp only: s1(4))
  finally show "map msg_id (messages (fst (sendMessage parse w clo mc res s))) =
           filter (\<lambda>i. i \<noteq> generateMessageId w (ticks s + 1))
             (map msg_id (messages s) @
              [generateUserMessageId w (ticks s), generateMessageId w (ticks s + 2)])" .
  have "statuses (trace (fst (sendMessage parse w clo mc res s))) = statuses (trace ?b)"
    by (simp add: r(1) statuses_append) (simp add: statuses_def)
  then show "set (statuses (trace (fst (sendMessage parse w clo mc res s)))) \<subseteq>
           set (statuses (trace s)) \<union> {''streaming'', ''ready''}"
    using b(5) by simp
qed

text \<open>
  Claim C4, as amended. An attempt that fails, other than by an abort, while the retry
  counter is below \<^verbatim>\<open>maxRetries\<close> increments the counter and sets the retry timer to
  1000 ms times the incremented counter; the only messages it takes out of the list
  are those whose id is the id of the request. The timer calls \<^verbatim>\<open>sendMessage\<close> again
  with the same text, and that call appends a new user message with this text and a
  new assistant placeholder and opens a new request, whose history is the message
  list captured by the closure followed by the new user message.
\<close>

theorem failed_attempt_calls_sendMessage_again:
  assumes valid: "validateInput messageContent = None"
      and fails: "failure res = Some e"
      and notAbort: "err_name e \<noteq> ''AbortError''"
      and budget: "retryCountRef s < cl_maxRetries clo"
      and run: "sendMessage parse w clo messageContent res s = (s', retry)"
      and again: "sendMessage_open w clo messageContent s' = (s'', rid)"
  shows "retry = Some (1000 * (retryCountRef s + 1)) \<and>
         retryCountRef s' = retryCountRef s + 1 \<and>
         timeouts (trace s') = timeouts (trace s) @ [1000 * (retryCountRef s + 1)] \<and>
         map msg_id (messages s') =
           filter (\<lambda>i. i \<noteq> generateMessageId w (ticks s + 1))
             (map msg_id (messages s) @
              [generateUserMessageId w (ticks s), generateMessageId w (ticks s + 2)]) \<and>
         map msg_role (messages s'') = map msg_role (messages s') @ [''user'', ''assistant''] \<and>
         map msg_text (messages s'') =
           map msg_text (messages s') @ [Some (JStr messageContent), None] \<and>
         fetches (trace s'') = fetches (trace s') @
           [\<lparr>req_id = rid,
             req_messages = cl_messages clo @
               [createMessage w (ticks s + 3)
                  \<lparr>opt_id = None, opt_role = ''user'', opt_content = messageContent,
                   opt_parts = []\<rparr>],
             req_model = cl_selectedModel clo, req_trigger = ''submit-message''\<rparr>]"
proof -
  have a: "retry = Some (1000 * (retryCountRef s + 1))"
          "retryCountRef s' = retryCountRef s + 1"
          "timeouts (trace s') = timeouts (trace s) @ [1000 * (retryCountRef s + 1)]"
          "map msg_id (messages s') =
             filter (\<lambda>i. i \<noteq> generateMessageId w (ticks s + 1))
               (map msg_id (messages s) @
                [generateUserMessageId w (ticks s), generateMessageId w (ticks s + 2)])"
          "ticks s' = ticks s + 3"
    using attempt_retry(1-5) [OF valid fails notAbort budget, of parse w] run by simp_all
  have ne: "messageContent \<noteq> []" using valid by (rule valid_nonempty)
  have b: "map msg_role (messages s'') = map msg_role (messages s') @ [''user'', ''assistant'']"
          "map msg_text (messages s'') = map msg_text (messages s') @ [Some (JStr messageContent), None]"
          "rid = generateMessageId w (ticks s' + 1)"
    using open_more(4) [of w clo messageContent s'] open_text [OF ne, of w clo s']
      open_more(2) [of w clo messageContent s'] again by simp_all
  have c: "fetches (trace s'') = fetches (trace s') @
           [\<lparr>req_id = rid,
             req_messages = cl_messages clo @
               [createMessage w (ticks s + 3)
                  \<lparr>opt_id = None, opt_role = ''user'', opt_content = messageContent,
                   opt_parts = []\<rparr>],
             req_model = cl_selectedModel clo, req_trigger = ''submit-message''\<rparr>]"
    using open_request [of w clo messageContent s'] again b(3) a(5) by simp
  show ?thesis using a(1-4) b(1,2) c by simp
qed


theorem failed_attempt_calls_sendMessage_again_witness:
  "validateInput ''Hello'' = None \<and>
   failure (Response 500 [] Done) = Some (JsError ''Error'' ''HTTP error! status: 500'') \<and>
   retryCountRef fresh_session < cl_maxRetries sample_closure \<and>
   snd (sendMessage sample_parse sample_world sample_closure ''Hello'' (Response 500 [] Done)
          fresh_session) = Some 1000 \<and>
   retryCountRef (fst (sendMessage sample_parse sample_world sample_closure ''Hello''
          (Response 500 [] Done) fresh_session)) = 1 \<and>
   map msg_text (messages (fst (sendMessage_open sample_world sample_closure ''Hello''
      (fst (sendMessage sample_parse sample_world sample_closure ''Hello''
              (Response 500 [] Done) fresh_session))))) =
   map msg_text (messages (fst (sendMessage sample_parse sample_world sample_closure ''Hello''
              (Response 500 [] Done) fresh_session))) @ [Some (JStr ''Hello''), None]"
proof -
  have valid: "validateInput ''Hello'' = None"
    by (simp add: validateInput_def trim_def js_space_def)
  have fails: "failure (Response 500 [] Done) =
               Some (JsError ''Error'' ''HTTP error! status: 500'')"
    by (simp add: failure_def response_ok_def dec_nat.simps digit_def)
  have notAbort: "err_name (JsError ''Error'' ''HTTP error! status: 500'') \<noteq> ''AbortError''"
    by simp
  have budget: "retryCountRef fresh_session < cl_maxRetries sample_closure"
    by (simp add: fresh_session_def sample_closure_def)
  have run: "sendMessage sample_parse sample_world sample_closure ''Hello''
               (Response 500 [] Done) fresh_session =
             (fst (sendMessage sample_parse sample_world sample_closure ''Hello''
                     (Response 500 [] Done) fresh_session),
              snd (sendMessage sample_parse sample_world sample_closure ''Hello''
                     (Response 500 [] Done) fresh_session))"
    by simp
  have again: "sendMessage_open sample_world sample_closure ''Hello''
                 (fst (sendMessage sample_parse sample_world sample_closure ''Hello''
                         (Response 500 [] Done) fresh_session)) =
               (fst (sendMessage_open sample_world sample_closure ''Hello''
                  (fst (sendMessage sample_parse sample_world sample_closure ''Hello''
                          (Response 500 [] Done) fresh_session))),
                snd (sendMessage_open sample_world sample_closure ''Hello''
                  (fst (sendMessage sample_parse sample_world sample_closure ''Hello''
                          (Response 500 [] Done) fresh_session))))"
    by simp
  have zero: "retryCountRef fresh_session = 0"
    by (simp add: fresh_session_def)
  show ?thesis
    using valid fails budget zero
      failed_attempt_calls_sendMessage_again [OF valid fails notAbort budget run again]
    by simp
qed


text \<open>
  Claim C4 as it is written fails where it says that no second copy of the user
  message is appended: after one failed and one successful attempt of the same
  submit, the list holds the user message twice.
\<close>

theorem retry_appends_second_user_message:
  "map msg_role (messages (submit_run sample_parse sample_world sample_closure ''Hello''
      fail_then_succeed fresh_session)) = [''user'', ''assistant'', ''user'', ''assistant''] \<and>
   map msg_text (messages (submit_run sample_parse sample_world sample_closure ''Hello''
      fail_then_succeed fresh_session)) =
     [Some (JStr ''Hello''), None, Some (JStr ''Hello''), Some (JStr ''Hi'')]"
  by (simp add: run_defs)

section \<open>The retry budget\<close>

lemma attempt_final:
  assumes valid: "validateInput mc = None"
      and fails: "failure res = Some e"
      and notAbort: "err_name e \<noteq> ''AbortError''"
      and spent: "\<not> retryCountRef s < cl_maxRetries clo"
  shows "snd (sendMessage parse w clo mc res s) = None"
    and "retryCountRef (fst (sendMessage parse w clo mc res s)) = retryCountRef s"
    and "status (fst (sendMessage parse w clo mc res s)) = ''ready''"
    and "error (fst (sendMessage parse w clo mc res s)) = Some (formatError e)"
    and "timeouts (trace (fst (sendMessage parse w clo mc res s))) = timeouts (trace s)"
    and "set (statuses (trace (fst (sendMessage parse w clo mc res s)))) \<subseteq>
           set (statuses (trace s)) \<union> {''streaming'', ''ready''}"
proof -
  obtain s1 mid where op: "sendMessage_open w clo mc s = (s1, mid)"
    by (cases "sendMessage_open w clo mc s")
  let ?b = "before_catch parse mid res s1"
  let ?c = "sendMessage_catch clo mid e ?b"
  have un: "unchanged_by_stream s1 ?b" by (rule before_catch_unchanged)
  have s1: "retryCountRef s1 = retryCountRef s" "timeouts (trace s1) = timeouts (trace s)"
    "statuses (trace s1) = statuses (trace s) @ [''streaming'']"
    using open_fields(3,5) [of w clo mc s] open_more(5) [of w clo mc s] op by simp_all
  have b: "retryCountRef ?b = retryCountRef s" "timeouts (trace ?b) = timeouts (trace s)"
    "set (statuses (trace ?b)) \<subseteq> set (statuses (trace s)) \<union> {''streaming'', ''ready''}"
    using un s1 timeouts_other [of "trace ?b" "trace s1"]
    by (auto simp: unchanged_by_stream_def)
  have ge: "\<not> retryCountRef ?b < cl_maxRetries clo" using b(1) spent by simp
  have run: "sendMessage parse w clo mc res s = finally_clear ?c"
    using sendMessage_valid [OF valid op] settle_failure [OF fails] by simp
  note c = catch_final [OF notAbort ge, of mid]
  show "snd (sendMessage parse w clo mc res s) = None"
    by (simp add: run finally_clear_def c(1))
  show "retryCountRef (fst (sendMessage parse w clo mc res s)) = retryCountRef s"
    by (simp add: run finally_clear_def c(4) b(1))
  show "status (fst (sendMessage parse w clo mc res s)) = ''ready''"
    by (simp add: run finally_clear_def c(3))
  show "error (fst (sendMessage parse w clo mc res s)) = Some (formatError e)"
    by (simp add: run finally_clear_def c(2))
  show "timeouts (trace (fst (sendMessage parse w clo mc res s))) = timeouts (trace s)"
    by (simp add: run finally_clear_def c(5) timeouts_append b(2)) (simp add: timeouts_def)
  have "statuses (trace (fst (sendMessage parse w clo mc res s))) =
        statuses (trace ?b) @ [''ready'']"
    by (simp add: run finally_clear_def c(5) statuses_append) (simp add: statuses_def)
  then show "set (statuses (trace (fst (sendMessage parse w clo mc res s)))) \<subseteq>
           set (statuses (trace s)) \<union> {''streaming'', ''ready''}"
    using b(3) by auto
qed

lemma attempt_counter_le:
  assumes "retryCountRef s \<le> cl_maxRetries clo"
  shows "retryCountRef (fst (sendMessage parse w clo mc res s)) \<le> cl_maxRetries clo"
proof (cases "validateInput mc")
  case (Some verr)
  with assms show ?thesis by (simp add: sendMessage_def)
next
  case None
  obtain s1 mid where op: "sendMessage_open w clo mc s = (s1, mid)"
    by (cases "sendMessage_open w clo mc s")
  let ?b = "before_catch parse mid res s1"
  have b: "retryCountRef ?b = retryCountRef s"
    using before_catch_unchanged [of s1 parse mid res] open_fields(3) [of w clo mc s] op
    by (simp add: unchanged_by_stream_def)
  show ?thesis
  proof (cases "failure res")
    case None
    then show ?thesis
      using sendMessage_valid [OF \<open>validateInput mc = None\<close> op, of parse res]
        settle_success [of res parse clo mid s1]
      by (simp add: finally_clear_def)
  next
    case (Some e)
    have run: "sendMessage parse w clo mc res s =
                 finally_clear (sendMessage_catch clo mid e ?b)"
      using sendMessage_valid [OF \<open>validateInput mc = None\<close> op] settle_failure [OF Some]
      by simp
    have "retryCountRef (fst (sendMessage_catch clo mid e ?b)) \<le> cl_maxRetries clo"
      using assms b by (auto simp: sendMessage_catch_def Let_def setStatus_def)
    then show ?thesis by (simp add: run finally_clear_def)
  qed
qed

lemma run_counter_le:
  "retryCountRef s \<le> cl_maxRetries clo \<Longrightarrow>
   retryCountRef (submit_run parse w clo mc results s) \<le> cl_maxRetries clo"
proof (induction results arbitrary: s)
  case Nil
  then show ?case by simp
next
  case (Cons res rest)
  obtain s' retry where step: "sendMessage parse w clo mc res s = (s', retry)"
    by (cases "sendMessage parse w clo mc res s")
  have le: "retryCountRef s' \<le> cl_maxRetries clo"
    using attempt_counter_le [OF Cons.prems, of parse w mc res] step by simp
  show ?case
  proof (cases retry)
    case None
    with step le show ?thesis by simp
  next
    case (Some d)
    with step Cons.IH [OF le] show ?thesis by simp
  qed
qed

lemma fails_retryablyD:
  "fails_retryably res \<Longrightarrow>
   \<exists>e. failure res = Some e \<and> err_name e \<noteq> ''AbortError'' \<and> failure_text res = formatError e"
  by (auto simp: fails_retryably_def failure_text_def split: option.splits)

lemma run_exhausted:
  assumes valid: "validateInput mc = None"
  shows "list_all fails_retryably results \<Longrightarrow>
         retryCountRef s \<le> cl_maxRetries clo \<Longrightarrow>
         length results = cl_maxRetries clo - retryCountRef s + 1 \<Longrightarrow>
         retryCountRef (submit_run parse w clo mc results s) = cl_maxRetries clo \<and>
         status (submit_run parse w clo mc results s) = ''ready'' \<and>
         error (submit_run parse w clo mc results s) = Some (failure_text (last results)) \<and>
         timeouts (trace (submit_run parse w clo mc results s)) =
           timeouts (trace s) @
           map (\<lambda>k. 1000 * k) [retryCountRef s + 1 ..< cl_maxRetries clo + 1] \<and>
         set (statuses (trace (submit_run parse w clo mc results s))) \<subseteq>
           set (statuses (trace s)) \<union> {''streaming'', ''ready''}"
proof (induction results arbitrary: s)
  case Nil
  then show ?case by simp
next
  case (Cons res rest)
  from Cons.prems(1) obtain e where e: "failure res = Some e" "err_name e \<noteq> ''AbortError''"
      "failure_text res = formatError e"
    using fails_retryablyD [of res] by auto
  show ?case
  proof (cases "retryCountRef s < cl_maxRetries clo")
    case True
    note a = attempt_retry [OF valid e(1,2) True, of parse w]
    obtain s' where step: "sendMessage parse w clo mc res s = (s', Some (1000 * (retryCountRef s + 1)))"
      using a(1) by (cases "sendMessage parse w clo mc res s") simp
    have s': "retryCountRef s' = retryCountRef s + 1"
      "timeouts (trace s') = timeouts (trace s) @ [1000 * (retryCountRef s + 1)]"
      "set (statuses (trace s')) \<subseteq> set (statuses (trace s)) \<union> {''streaming'', ''ready''}"
      using a(2,3,6) step by simp_all
    have le: "retryCountRef s' \<le> cl_maxRetries clo" using s'(1) True by simp
    have len: "length rest = cl_maxRetries clo - retryCountRef s' + 1"
      using Cons.prems(3) s'(1) True by simp
    have ne: "rest \<noteq> []" using len by auto
    have all: "list_all fails_retryably rest" using Cons.prems(1) by simp
    note ih = Cons.IH [OF all le len]
    have upt: "[retryCountRef s + 1 ..< cl_maxRetries clo + 1] =
               (retryCountRef s + 1) # [retryCountRef s' + 1 ..< cl_maxRetries clo + 1]"
      using True s'(1) by (simp add: upt_conv_Cons)
    have run: "submit_run parse w clo mc (res # rest) s = submit_run parse w clo mc rest s'"
      using step by simp
    let ?f = "submit_run parse w clo mc rest s'"
    have t: "timeouts (trace ?f) =
             timeouts (trace s) @
             map (\<lambda>k. 1000 * k) [retryCountRef s + 1 ..< cl_maxRetries clo + 1]"
    proof -
      have "timeouts (trace ?f) =
            timeouts (trace s') @
            map (\<lambda>k. 1000 * k) [retryCountRef s' + 1 ..< cl_maxRetries clo + 1]"
        using ih by blast
      also have "\<dots> = timeouts (trace s) @
            map (\<lambda>k. 1000 * k)
              ((retryCountRef s + 1) # [retryCountRef s' + 1 ..< cl_maxRetries clo + 1])"
        by (simp only: s'(2)) simp
      finally show ?thesis by (simp only: upt)
    qed
    have st: "set (statuses (trace ?f)) \<subseteq>
              set (statuses (trace s)) \<union> {''streaming'', ''ready''}"
    proof -
      have "set (statuses (trace ?f)) \<subseteq>
            set (statuses (trace s')) \<union> {''streaming'', ''ready''}"
        using ih by blast
      then show ?thesis using s'(3) by blast
    qed
    have "retryCountRef ?f = cl_maxRetries clo" "status ?f = ''ready''"
         "error ?f = Some (failure_text (last rest))"
      using ih by blast+
    moreover have "last (res # rest) = last rest" using ne by simp
    ultimately show ?thesis
      unfolding run using t st by simp
  next
    case False
    note a = attempt_final [OF valid e(1,2) False, of parse w]
    obtain s' where step: "sendMessage parse w clo mc res s = (s', None)"
      using a(1) by (cases "sendMessage parse w clo mc res s") simp
    have eq: "retryCountRef s = cl_maxRetries clo" using False Cons.prems(2) by simp
    then have rest: "rest = []" using Cons.prems(3) by simp
    have run: "submit_run parse w clo mc (res # rest) s = s'"
      using step by simp
    show ?thesis
      unfolding run using a(2-6) step eq rest e(3) by simp
  qed
qed

text \<open>
  Claim C7, as amended. The retry counter never exceeds \<^verbatim>\<open>maxRetries\<close>: a submit that
  starts with the counter within the bound leaves it within the bound, whatever the
  attempts do. When every attempt of a submit fails (other than by an abort) and the
  budget runs out, the run ends with the counter at \<^verbatim>\<open>maxRetries\<close>, the status
  \<^verbatim>\<open>ready\<close>, the session's error set to the text of the last failure, and one retry
  timer per retry with delays 1000 ms times the counter; the only values the status
  was set to on the way are \<^verbatim>\<open>streaming\<close> and \<^verbatim>\<open>ready\<close>.
\<close>

theorem retry_counter_bounded_and_exhaustion:
  assumes bound: "retryCountRef s \<le> cl_maxRetries clo"
  shows "retryCountRef (submit_run parse w clo messageContent results s) \<le> cl_maxRetries clo \<and>
         (validateInput messageContent = None \<and> list_all fails_retryably results \<and>
          length results = cl_maxRetries clo - retryCountRef s + 1 \<longrightarrow>
            retryCountRef (submit_run parse w clo messageContent results s) = cl_maxRetries clo \<and>
            status (submit_run parse w clo messageContent results s) = ''ready'' \<and>
            error (submit_run parse w clo messageContent results s) =
              Some (failure_text (last results)) \<and>
            timeouts (trace (submit_run parse w clo messageContent results s)) =
              timeouts (trace s) @
              map (\<lambda>k. 1000 * k) [retryCountRef s + 1 ..< cl_maxRetries clo + 1] \<and>
            set (statuses (trace (submit_run parse w clo messageContent results s))) \<subseteq>
              set (statuses (trace s)) \<union> {''streaming'', ''ready''})"
  using run_counter_le [OF bound, of parse w messageContent results]
    run_exhausted [of messageContent results s clo parse w] bound
  by blast


theorem retry_counter_bounded_and_exhaustion_witness:
  "retryCountRef fresh_session \<le> cl_maxRetries closure_one_retry \<and>
   validateInput ''Hello'' = None \<and> list_all fails_retryably two_failures \<and>
   length two_failures = cl_maxRetries closure_one_retry - retryCountRef fresh_session + 1 \<and>
   retryCountRef (submit_run sample_parse sample_world closure_one_retry ''Hello'' two_failures
      fresh_session) = 1 \<and>
   status (submit_run sample_parse sample_world closure_one_retry ''Hello'' two_failures
      fresh_session) = ''ready'' \<and>
   error (submit_run sample_parse sample_world closure_one_retry ''Hello'' two_failures
      fresh_session) = Some ''Failed to fetch'' \<and>
   timeouts (trace (submit_run sample_parse sample_world closure_one_retry ''Hello'' two_failures
      fresh_session)) = [1000]"
proof -
  have bound: "retryCountRef fresh_session \<le> cl_maxRetries closure_one_retry"
    by (simp add: fresh_session_def closure_one_retry_def)
  have valid: "validateInput ''Hello'' = None"
    by (simp add: validateInput_def trim_def js_space_def)
  have all: "list_all fails_retryably two_failures"
    by (simp add: two_failures_def fails_retryably_def failure_def response_ok_def)
  have len: "length two_failures =
             cl_maxRetries closure_one_retry - retryCountRef fresh_session + 1"
    by (simp add: two_failures_def fresh_session_def closure_one_retry_def)
  have ftext: "failure_text (last two_failures) = ''Failed to fetch''"
    by (simp add: two_failures_def failure_text_def failure_def formatError_def)
  have more: "cl_maxRetries closure_one_retry = 1" "retryCountRef fresh_session = 0"
    "trace fresh_session = []"
    by (simp_all add: fresh_session_def closure_one_retry_def)
  show ?thesis
    using bound valid all len ftext more
      retry_counter_bounded_and_exhaustion [OF bound, of sample_parse sample_world "''Hello''"
        two_failures]
    by (simp add: timeouts_def)
qed


text \<open>
  Claim C7 as it is written fails where it says that the status becomes \<^verbatim>\<open>error\<close>:
  the hook never sets that value. With \<^verbatim>\<open>maxRetries = 1\<close> and two failing attempts
  the status is set to \<^verbatim>\<open>streaming\<close>, \<^verbatim>\<open>streaming\<close> and \<^verbatim>\<open>ready\<close>; the error is
  in the session, and on no message.
\<close>

theorem exhausted_retries_never_set_error_status:
  "statuses (trace (submit_run sample_parse sample_world closure_one_retry ''Hello''
      two_failures fresh_session)) = [''streaming'', ''streaming'', ''ready''] \<and>
   error (submit_run sample_parse sample_world closure_one_retry ''Hello'' two_failures
      fresh_session) = Some ''Failed to fetch'' \<and>
   map msg_error (messages (submit_run sample_parse sample_world closure_one_retry ''Hello''
      two_failures fresh_session)) = [None, None, None, None]"
  by (simp add: run_defs statuses_def)

end
